theory Spec2Isabelle
  imports Main
begin

section \<open>Python values, failures and the world the module runs in\<close>

text \<open>
  The module \<^verbatim>\<open>snake/__init__.py\<close> talks to the editor through two calls of the
  \<^verbatim>\<open>vim\<close> module, \<^verbatim>\<open>vim.eval\<close> and \<^verbatim>\<open>vim.command\<close>, and keeps one piece of state
  of its own, the dictionary \<^verbatim>\<open>_mapped_functions\<close>. The editor is not part of the
  repository: it is a parameter of every definition below (a record of two state
  transformers over an arbitrary editor state \<open>'h\<close>).

  A raised exception is a value: every computation returns \<open>(exn + 'a) \<times> world\<close>, the
  outcome (\<open>Inl\<close> the exception) together with the world it leaves behind, so that
  what a \<^verbatim>\<open>finally\<close> clause does after a failure can be stated.
\<close>

datatype exn =
    Exception string      \<comment> \<open>\<^verbatim>\<open>raise Exception(msg)\<close>\<close>
  | VimError string       \<comment> \<open>\<^verbatim>\<open>vim.error\<close>, raised by the editor\<close>
  | ValueError
  | TypeError
  | KeyError
  | ReError               \<comment> \<open>\<^verbatim>\<open>re.error\<close>\<close>

text \<open>What \<^verbatim>\<open>vim.eval\<close> hands back: a string, or a list of such values.\<close>

datatype vval = VStr string | VList "vval list"

text \<open>
  Every call that leaves the module is recorded: an evaluation, a command, or the
  invocation of a stored callable.
\<close>

datatype 'f event = Eval string | Command string | Invoke 'f

record ('f, 'h) world =
  mapped_functions :: "int \<rightharpoonup> 'f"   \<comment> \<open>\<^verbatim>\<open>_mapped_functions = {}\<close>\<close>
  vim_state :: 'h
  trace :: "'f event list"

type_synonym ('a, 'f, 'h) prog = "('f, 'h) world \<Rightarrow> (exn + 'a) \<times> ('f, 'h) world"

definition return :: "'a \<Rightarrow> ('a, 'f, 'h) prog" where
  "return x w = (Inr x, w)"

definition raise :: "exn \<Rightarrow> ('a, 'f, 'h) prog" where
  "raise e w = (Inl e, w)"

text \<open>Sequencing: a failure of the first part skips the second.\<close>

definition bind :: "('a, 'f, 'h) prog \<Rightarrow> ('a \<Rightarrow> ('b, 'f, 'h) prog) \<Rightarrow> ('b, 'f, 'h) prog" where
  "bind m k w = (case m w of (Inl e, w') \<Rightarrow> (Inl e, w') | (Inr x, w') \<Rightarrow> k x w')"

subsection \<open>Formatting and reading integers\<close>

text \<open>\<^verbatim>\<open>"%s" % n\<close> and \<^verbatim>\<open>"%d" % n\<close> for a Python integer: its decimal digits, with a minus sign.\<close>

definition digit_char :: "nat \<Rightarrow> char" where
  "digit_char d = char_of (48 + d)"

fun str_nat :: "nat \<Rightarrow> string" where
  "str_nat n = (if n < 10 then [digit_char n] else str_nat (n div 10) @ [digit_char (n mod 10)])"

definition str_int :: "int \<Rightarrow> string" where
  "str_int i = (if i < 0 then CHR ''-'' # str_nat (nat (- i)) else str_nat (nat i))"

definition is_digit :: "char \<Rightarrow> bool" where
  "is_digit c \<longleftrightarrow> 48 \<le> (of_char c :: nat) \<and> (of_char c :: nat) \<le> 57"

definition digit_val :: "char \<Rightarrow> nat" where
  "digit_val c = of_char c - 48"

text \<open>
  \<^verbatim>\<open>int(s)\<close> for a string: surrounding whitespace (space, tab, line feed, vertical tab,
  form feed, carriage return) is dropped, one sign is allowed, then decimal digits
  follow, where a single underscore may stand between two digits. \<open>None\<close> is Python's
  \<^verbatim>\<open>ValueError\<close>. (Characters outside ASCII are not modelled.)
\<close>

definition py_isspace :: "char \<Rightarrow> bool" where
  "py_isspace c \<longleftrightarrow> (of_char c :: nat) \<in> {9, 10, 11, 12, 13, 32}"

definition py_strip :: "string \<Rightarrow> string" where
  "py_strip s = rev (dropWhile py_isspace (rev (dropWhile py_isspace s)))"

fun parse_digits :: "nat \<Rightarrow> string \<Rightarrow> nat option" where
  "parse_digits acc [] = Some acc"
| "parse_digits acc (c # cs) =
     (if is_digit c then parse_digits (10 * acc + digit_val c) cs
      else if c = CHR ''_'' then
        (case cs of
           [] \<Rightarrow> None
         | d # ds \<Rightarrow> if is_digit d then parse_digits (10 * acc + digit_val d) ds else None)
      else None)"

definition parse_nat :: "string \<Rightarrow> nat option" where
  "parse_nat s = (case s of [] \<Rightarrow> None
                  | c # cs \<Rightarrow> if is_digit c then parse_digits (digit_val c) cs else None)"

definition py_int :: "string \<Rightarrow> int option" where
  "py_int s =
     (case py_strip s of
        [] \<Rightarrow> None
      | c # cs \<Rightarrow>
          if c = CHR ''-'' then map_option (\<lambda>n. - int n) (parse_nat cs)
          else if c = CHR ''+'' then map_option int (parse_nat cs)
          else map_option int (parse_nat (c # cs)))"

section \<open>The callback registry\<close>

text \<open>
  A callable is an object of an arbitrary type \<open>'f\<close>. Python's \<^verbatim>\<open>id\<close> and the call
  \<^verbatim>\<open>fn()\<close> belong to the interpreter, so both are parameters:
  \<open>py_id :: 'f \<Rightarrow> int\<close> is the object's identity and
  \<open>py_call f\<close> is what running \<open>f\<close> with no arguments does to the world.
  Two objects that are alive at the same time have different identities, so
  "\<open>f\<close> and \<open>g\<close> are distinct objects" is \<open>py_id f \<noteq> py_id g\<close>, whatever their behaviour.
\<close>

text \<open>
  \<^verbatim>\<open>
  def register_fn(fn):
      fn_key = id(fn)
      _mapped_functions[fn_key] = fn
      return "snake.dispatch_mapped_function(%s)" % fn_key
  \<close>
\<close>

definition register_fn :: "('f \<Rightarrow> int) \<Rightarrow> 'f \<Rightarrow> ('f, 'h) world \<Rightarrow> string \<times> ('f, 'h) world" where
  "register_fn py_id fn w =
     (let fn_key = py_id fn;
          w' = w\<lparr>mapped_functions := (mapped_functions w)(fn_key \<mapsto> fn)\<rparr>
      in (''snake.dispatch_mapped_function('' @ str_int fn_key @ '')'', w'))"

text \<open>The message of the exception raised for a key that is not in the dictionary.\<close>

definition indent12 :: string where
  "indent12 = replicate 12 (CHR '' '')"

definition stale_message :: "int \<Rightarrow> string" where
  "stale_message key =
     ''unable to find mapped function with id() == '' @ str_int key @ ''.'' @ [CHR 0x0A] @
     indent12 @ ''Something bad related to reloading has happened.  Typically, this is'' @ [CHR 0x0A] @
     indent12 @ ''because you set up a key_map inside of a @when_buffer_is and'' @ [CHR 0x0A] @
     indent12 @ ''reloaded your ~/.vim.py.  The result is that the function decorated'' @ [CHR 0x0A] @
     indent12 @ ''by @when_buffer_is isn'' @ [CHR 0x27] @ ''t re-run with updated key_mappings, so the'' @ [CHR 0x0A] @
     indent12 @ ''key_mappings have references to old callbacks.''"

text \<open>\<^verbatim>\<open>fn()\<close>: the invocation is recorded, then the interpreter runs the callable.\<close>

definition invoke ::
  "('f \<Rightarrow> ('r, 'f, 'h) prog) \<Rightarrow> 'f \<Rightarrow> ('r, 'f, 'h) prog" where
  "invoke py_call fn w = py_call fn (w\<lparr>trace := trace w @ [Invoke fn]\<rparr>)"

text \<open>
  \<^verbatim>\<open>
  def dispatch_mapped_function(key):
      try:
          fn = _mapped_functions[key]
      except KeyError:
          raise Exception("""unable to find mapped function with id() == %s. ...""" % key)
      else:
          return fn()
  \<close>
\<close>

definition dispatch_mapped_function ::
  "('f \<Rightarrow> ('r, 'f, 'h) prog) \<Rightarrow> int \<Rightarrow> ('r, 'f, 'h) prog" where
  "dispatch_mapped_function py_call key w =
     (case mapped_functions w key of
        None \<Rightarrow> raise (Exception (stale_message key)) w
      | Some fn \<Rightarrow> invoke py_call fn w)"

section \<open>The command bridge\<close>

text \<open>
  The editor and the two library calls the module makes outside itself.
  \<open>host_eval\<close> and \<open>host_command\<close> are \<^verbatim>\<open>vim.eval\<close> and \<^verbatim>\<open>vim.command\<close>: each may
  change the editor's state and may fail. \<open>leader_sub repl k\<close> is
  \<^verbatim>\<open>_LEADER_REGEX.sub(repl, k)\<close> of the \<^verbatim>\<open>re\<close> library, and \<open>str_of_list\<close> is Python's
  \<^verbatim>\<open>str\<close> of a list.
\<close>

record 'h host =
  host_eval :: "string \<Rightarrow> 'h \<Rightarrow> (exn + vval) \<times> 'h"
  host_command :: "string \<Rightarrow> 'h \<Rightarrow> (exn + unit) \<times> 'h"
  leader_sub :: "string \<Rightarrow> string \<Rightarrow> exn + string"
  str_of_list :: "vval list \<Rightarrow> string"

definition vim_eval :: "'h host \<Rightarrow> string \<Rightarrow> (vval, 'f, 'h) prog" where
  "vim_eval H expr w =
     (case host_eval H expr (vim_state w) of
        (r, h') \<Rightarrow> (r, w\<lparr>vim_state := h', trace := trace w @ [Eval expr]\<rparr>))"

definition vim_command :: "'h host \<Rightarrow> string \<Rightarrow> (unit, 'f, 'h) prog" where
  "vim_command H cmd w =
     (case host_command H cmd (vim_state w) of
        (r, h') \<Rightarrow> (r, w\<lparr>vim_state := h', trace := trace w @ [Command cmd]\<rparr>))"

text \<open>
  \<^verbatim>\<open>command(cmd)\<close> with \<^verbatim>\<open>capture=False\<close>, the default, which is how every helper
  below calls it:
  \<^verbatim>\<open>
      else:
          out = None
          vim.command(cmd)
      return out
  \<close>
\<close>

definition command_plain :: "'h host \<Rightarrow> string \<Rightarrow> (vval option, 'f, 'h) prog" where
  "command_plain H cmd = bind (vim_command H cmd) (\<lambda>_. return None)"

text \<open>\<^verbatim>\<open>s.replace('"', r'\"')\<close>\<close>

definition escape_string_dq :: "string \<Rightarrow> string" where
  "escape_string_dq s = concat (map (\<lambda>c. if c = CHR 0x22 then [CHR 0x5C, CHR 0x22] else [c]) s)"

text \<open>\<^verbatim>\<open>str(val)\<close>\<close>

definition py_str :: "'h host \<Rightarrow> vval \<Rightarrow> string" where
  "py_str H v = (case v of VStr s \<Rightarrow> s | VList xs \<Rightarrow> str_of_list H xs)"

text \<open>
  \<^verbatim>\<open>
  def get_register(name):
      val = vim.eval("@%s" % name)
      if val == "":
          val = None
      return val

  def clear_register(name):
      set_register(name, "")

  def set_register(name, val):
      val = escape_string_dq(str(val))
      command('let @%s = "%s"' % (name, val))
  \<close>
\<close>

definition get_register :: "'h host \<Rightarrow> string \<Rightarrow> (vval option, 'f, 'h) prog" where
  "get_register H name =
     bind (vim_eval H (''@'' @ name)) (\<lambda>val. return (if val = VStr [] then None else Some val))"

definition let_register :: "string \<Rightarrow> string \<Rightarrow> string" where
  \<open>let_register name val = ''let @'' @ name @ '' = "'' @ val @ ''"''\<close>

definition set_register :: "'h host \<Rightarrow> string \<Rightarrow> vval \<Rightarrow> (unit, 'f, 'h) prog" where
  "set_register H name val =
     bind (command_plain H (let_register name (escape_string_dq (py_str H val)))) (\<lambda>_. return ())"

definition clear_register :: "'h host \<Rightarrow> string \<Rightarrow> (unit, 'f, 'h) prog" where
  "clear_register H name = set_register H name (VStr [])"

text \<open>
  \<^verbatim>\<open>
  def get_mode():
      return vim.eval("mode(1)")

  def get_leader():
      return vim.eval("mapleader")
  \<close>
\<close>

definition get_mode :: "'h host \<Rightarrow> (vval, 'f, 'h) prog" where
  "get_mode H = vim_eval H ''mode(1)''"

definition get_leader :: "'h host \<Rightarrow> (vval, 'f, 'h) prog" where
  "get_leader H = vim_eval H ''mapleader''"

text \<open>\<^verbatim>\<open>k.lower()\<close> on ASCII letters, and \<^verbatim>\<open>"leader" in ...\<close>.\<close>

definition lower_char :: "char \<Rightarrow> char" where
  "lower_char c =
     (if 65 \<le> (of_char c :: nat) \<and> (of_char c :: nat) \<le> 90 then char_of (of_char c + 32 :: nat) else c)"

fun contains :: "string \<Rightarrow> string \<Rightarrow> bool" where
  "contains p [] = (p = [])"
| "contains p (c # cs) = (take (length p) (c # cs) = p \<or> contains p cs)"

text \<open>Python's truth value of what \<^verbatim>\<open>vim.eval\<close> returned (\<^verbatim>\<open>get_leader() or ""\<close>).\<close>

definition truthy :: "vval \<Rightarrow> bool" where
  "truthy v = (case v of VStr s \<Rightarrow> s \<noteq> [] | VList xs \<Rightarrow> xs \<noteq> [])"

text \<open>
  \<^verbatim>\<open>
  def keys(k, keymaps=True):
      k = escape_string_dq(k)
      cmd = "normal"
      if keymaps:
          if "leader" in k.lower():
              k = _LEADER_REGEX.sub(get_leader() or "", k)
      else:
          cmd += "!"
      command('execute "%s %s"' % (cmd, k))
  \<close>
\<close>

definition execute_normal :: "string \<Rightarrow> string \<Rightarrow> string" where
  \<open>execute_normal cmd k = ''execute "'' @ cmd @ '' '' @ k @ ''"''\<close>

definition keys :: "'h host \<Rightarrow> string \<Rightarrow> bool \<Rightarrow> (unit, 'f, 'h) prog" where
  "keys H k keymaps =
     (let k1 = escape_string_dq k in
      bind
        (if keymaps then
           (if contains ''leader'' (map lower_char k1) then
              bind (get_leader H) (\<lambda>l.
                case (if truthy l then l else VStr []) of
                  VStr repl \<Rightarrow>
                    (case leader_sub H repl k1 of
                       Inl e \<Rightarrow> raise e
                     | Inr k2 \<Rightarrow> return (''normal'', k2))
                | VList _ \<Rightarrow> raise TypeError)
            else return (''normal'', k1))
         else return (''normal!'', k1))
        (\<lambda>(cmd, k2). bind (command_plain H (execute_normal cmd k2)) (\<lambda>_. return ())))"

text \<open>
  \<^verbatim>\<open>
  def get_cursor_position():
      _, start_row, start_col, _ = vim.eval("getpos('.')")
      return int(start_row), int(start_col)

  def set_cursor_position(pos):
      full_pos = "[0, %d, %d, 0]" % (pos[0], pos[1])
      command("call setpos('.', %s)" % full_pos)
  \<close>
  Unpacking iterates the value: a list gives its elements, a string its characters;
  anything but four items is a \<^verbatim>\<open>ValueError\<close>. \<^verbatim>\<open>int\<close> of a list is a \<^verbatim>\<open>TypeError\<close>.
\<close>

definition py_iter :: "vval \<Rightarrow> vval list" where
  "py_iter v = (case v of VStr s \<Rightarrow> map (\<lambda>c. VStr [c]) s | VList xs \<Rightarrow> xs)"

definition unpack4 :: "vval \<Rightarrow> exn + (vval \<times> vval \<times> vval \<times> vval)" where
  "unpack4 v = (case py_iter v of [a, b, c, d] \<Rightarrow> Inr (a, b, c, d) | _ \<Rightarrow> Inl ValueError)"

definition int_of_vval :: "vval \<Rightarrow> exn + int" where
  "int_of_vval v =
     (case v of
        VStr s \<Rightarrow> (case py_int s of None \<Rightarrow> Inl ValueError | Some n \<Rightarrow> Inr n)
      | VList _ \<Rightarrow> Inl TypeError)"

definition get_cursor_position :: "'h host \<Rightarrow> (int \<times> int, 'f, 'h) prog" where
  "get_cursor_position H =
     bind (vim_eval H ''getpos('.')'') (\<lambda>v.
       case unpack4 v of
         Inl e \<Rightarrow> raise e
       | Inr (_, start_row, start_col, _) \<Rightarrow>
           (case int_of_vval start_row of
              Inl e \<Rightarrow> raise e
            | Inr r \<Rightarrow>
                (case int_of_vval start_col of
                   Inl e \<Rightarrow> raise e
                 | Inr c \<Rightarrow> return (r, c))))"

definition setpos_command :: "int \<times> int \<Rightarrow> string" where
  "setpos_command pos =
     ''call setpos('.', '' @ (''[0, '' @ str_int (fst pos) @ '', '' @ str_int (snd pos) @ '', 0]'') @ '')''"

definition set_cursor_position :: "'h host \<Rightarrow> int \<times> int \<Rightarrow> (unit, 'f, 'h) prog" where
  "set_cursor_position H pos = bind (command_plain H (setpos_command pos)) (\<lambda>_. return ())"

section \<open>Scoped state preservation\<close>

text \<open>
  Each helper is a generator under \<^verbatim>\<open>@contextmanager\<close> of the shape
  \<^verbatim>\<open>
      saved = ...capture...
      try:
          yield
      finally:
          ...restore from saved...
  \<close>
  and \<^verbatim>\<open>with helper(): body\<close> runs the part before \<^verbatim>\<open>yield\<close>, then the body, then the
  \<^verbatim>\<open>finally\<close> clause whether the body returned or raised. A failure before the
  \<^verbatim>\<open>yield\<close> leaves the block without running the body; a failure inside the
  \<^verbatim>\<open>finally\<close> clause replaces the body's outcome; otherwise the body's outcome (its
  value or its exception) is the block's.
\<close>

definition with_block ::
  "('s, 'f, 'h) prog \<Rightarrow> ('s \<Rightarrow> (unit, 'f, 'h) prog) \<Rightarrow> ('a, 'f, 'h) prog \<Rightarrow> ('a, 'f, 'h) prog" where
  "with_block enter exit body w =
     (case enter w of
        (Inl e, w1) \<Rightarrow> (Inl e, w1)
      | (Inr saved, w1) \<Rightarrow>
          (case body w1 of
             (r, w2) \<Rightarrow>
               (case exit saved w2 of
                  (Inl e', w3) \<Rightarrow> (Inl e', w3)
                | (Inr _, w3) \<Rightarrow> (r, w3))))"

text \<open>
  The outcome of a block whose body raised \<open>e\<close>, from the outcome of its \<^verbatim>\<open>finally\<close>
  clause: the clause's own exception if it raised one, otherwise \<open>e\<close>.
\<close>

definition after_restoration ::
  "exn \<Rightarrow> (exn + unit) \<times> ('f, 'h) world \<Rightarrow> (exn + 'a) \<times> ('f, 'h) world" where
  "after_restoration e out = (case fst out of Inl e' \<Rightarrow> Inl e' | Inr _ \<Rightarrow> Inl e, snd out)"

text \<open>
  \<^verbatim>\<open>
  @contextmanager
  def preserve_cursor():
      p = get_cursor_position()
      try:
          yield
      finally:
          set_cursor_position(p)
  \<close>
\<close>

definition preserve_cursor :: "'h host \<Rightarrow> ('a, 'f, 'h) prog \<Rightarrow> ('a, 'f, 'h) prog" where
  "preserve_cursor H body = with_block (get_cursor_position H) (set_cursor_position H) body"

text \<open>
  \<^verbatim>\<open>
  @contextmanager
  def preserve_mode():
      old_mode = get_mode()
      visual_modes = ("v", "V", "^V")
      try:
          yield
      finally:
          cur_mode = get_mode()
          if cur_mode == "n":
              if old_mode in visual_modes:
                  keys("gv")
          elif cur_mode in visual_modes:
              if old_mode == "n":
                  keys("\<esc>")
  \<close>
  The last literal is a backslash followed by \<^verbatim>\<open><esc>\<close>.
\<close>

definition visual_modes :: "vval list" where
  "visual_modes = [VStr ''v'', VStr ''V'', VStr ''^V'']"

definition esc_keys :: string where
  "esc_keys = CHR 0x5C # ''<esc>''"

definition preserve_mode_exit :: "'h host \<Rightarrow> vval \<Rightarrow> (unit, 'f, 'h) prog" where
  "preserve_mode_exit H old_mode =
     bind (get_mode H) (\<lambda>cur_mode.
       if cur_mode = VStr ''n'' then
         (if old_mode \<in> set visual_modes then keys H ''gv'' True else return ())
       else if cur_mode \<in> set visual_modes then
         (if old_mode = VStr ''n'' then keys H esc_keys True else return ())
       else return ())"

definition preserve_mode :: "'h host \<Rightarrow> ('a, 'f, 'h) prog \<Rightarrow> ('a, 'f, 'h) prog" where
  "preserve_mode H body = with_block (get_mode H) (preserve_mode_exit H) body"

text \<open>
  \<^verbatim>\<open>
  @contextmanager
  def preserve_registers(*regs):
      old_regs = {}
      special_regs = ('0', '"')
      for reg in regs:
          contents = get_register(reg)
          old_regs[reg] = contents
          clear_register(reg)
      for reg in special_regs:
          contents = get_register(reg)
          old_regs[reg] = contents
      try:
          yield
      finally:
          for reg in regs + special_regs:
              old_contents = old_regs[reg]
              if old_contents is None:
                  clear_register(reg)
              else:
                  set_register(reg, old_contents)
  \<close>
  \<open>old_regs\<close> maps a register name to what \<^verbatim>\<open>get_register\<close> returned, where the
  inner \<open>None\<close> is Python's.
\<close>

type_synonym old_regs = "string \<rightharpoonup> vval option"

definition special_regs :: "string list" where
  "special_regs = [''0'', [CHR 0x22]]"

fun capture_and_clear :: "'h host \<Rightarrow> string list \<Rightarrow> old_regs \<Rightarrow> (old_regs, 'f, 'h) prog" where
  "capture_and_clear H [] old = return old"
| "capture_and_clear H (reg # regs) old =
     bind (get_register H reg) (\<lambda>contents.
       bind (clear_register H reg) (\<lambda>_.
         capture_and_clear H regs (old(reg \<mapsto> contents))))"

fun capture_only :: "'h host \<Rightarrow> string list \<Rightarrow> old_regs \<Rightarrow> (old_regs, 'f, 'h) prog" where
  "capture_only H [] old = return old"
| "capture_only H (reg # regs) old =
     bind (get_register H reg) (\<lambda>contents.
       capture_only H regs (old(reg \<mapsto> contents)))"

definition preserve_registers_enter :: "'h host \<Rightarrow> string list \<Rightarrow> (old_regs, 'f, 'h) prog" where
  "preserve_registers_enter H regs =
     bind (capture_and_clear H regs Map.empty) (\<lambda>old. capture_only H special_regs old)"

fun restore_registers :: "'h host \<Rightarrow> old_regs \<Rightarrow> string list \<Rightarrow> (unit, 'f, 'h) prog" where
  "restore_registers H old [] = return ()"
| "restore_registers H old (reg # regs) =
     bind (case old reg of
             None \<Rightarrow> raise KeyError
           | Some None \<Rightarrow> clear_register H reg
           | Some (Some old_contents) \<Rightarrow> set_register H reg old_contents)
       (\<lambda>_. restore_registers H old regs)"

definition preserve_registers_exit :: "'h host \<Rightarrow> string list \<Rightarrow> old_regs \<Rightarrow> (unit, 'f, 'h) prog" where
  "preserve_registers_exit H regs old = restore_registers H old (regs @ special_regs)"

definition preserve_registers ::
  "'h host \<Rightarrow> string list \<Rightarrow> ('a, 'f, 'h) prog \<Rightarrow> ('a, 'f, 'h) prog" where
  "preserve_registers H regs body =
     with_block (preserve_registers_enter H regs) (preserve_registers_exit H regs) body"

text \<open>
  \<^verbatim>\<open>
  def command(cmd, capture=False):
      if capture:
          with preserve_registers("a"):
              vim.command("redir @a")
              vim.command(cmd)
              vim.command("redir END")
              out = get_register("a")
      else:
          out = None
          vim.command(cmd)
      return out
  \<close>
\<close>

definition capture_body :: "'h host \<Rightarrow> string \<Rightarrow> (vval option, 'f, 'h) prog" where
  "capture_body H cmd =
     bind (vim_command H ''redir @a'') (\<lambda>_.
       bind (vim_command H cmd) (\<lambda>_.
         bind (vim_command H ''redir END'') (\<lambda>_.
           get_register H ''a'')))"

definition command :: "'h host \<Rightarrow> string \<Rightarrow> bool \<Rightarrow> (vval option, 'f, 'h) prog" where
  "command H cmd capture =
     (if capture then preserve_registers H [''a''] (capture_body H cmd)
      else command_plain H cmd)"

section \<open>What is assumed of the editor\<close>

text \<open>
  The statements about state that survives a block hold on an editor that keeps what
  it is told. Each assumption names the part of the editor's state it speaks of
  through a reading function (\<open>cur\<close>, \<open>md\<close>, \<open>rd\<close>) and ties it to the exact
  expressions and commands the module sends.

  \<^item> the cursor: \<^verbatim>\<open>getpos('.')\<close> reads it without changing anything, and for the
    positions in \<open>P\<close> the \<^verbatim>\<open>setpos\<close> command succeeds and moves it there;
  \<^item> the mode: \<^verbatim>\<open>mode(1)\<close> reads it without changing anything;
  \<^item> registers: \<^verbatim>\<open>@r\<close> reads register \<open>r\<close> without changing anything; writing one
    of the registers \<open>Q\<close> with a text of \<open>V\<close> succeeds, is read back as written and
    leaves the other registers of \<open>Q\<close> alone; a write to a register of \<open>S\<close>,
    successful or not, leaves the registers of \<open>Q\<close> alone.
\<close>

text \<open>What \<^verbatim>\<open>get_register\<close> returns for a register that holds the text \<open>v\<close>.\<close>

definition reg_value :: "string \<Rightarrow> vval option" where
  "reg_value v = (if v = [] then None else Some (VStr v))"

definition cursor_host :: "'h host \<Rightarrow> ('h \<Rightarrow> int \<times> int) \<Rightarrow> (int \<times> int) set \<Rightarrow> bool" where
  "cursor_host H cur P \<longleftrightarrow>
     (\<forall>h. \<exists>a d. host_eval H ''getpos('.')'' h =
        (Inr (VList [a, VStr (str_int (fst (cur h))), VStr (str_int (snd (cur h))), d]), h)) \<and>
     (\<forall>h. \<forall>p\<in>P. \<exists>h'. host_command H (setpos_command p) h = (Inr (), h') \<and> cur h' = p)"

definition mode_host :: "'h host \<Rightarrow> ('h \<Rightarrow> string) \<Rightarrow> bool" where
  "mode_host H md \<longleftrightarrow> (\<forall>h. host_eval H ''mode(1)'' h = (Inr (VStr (md h)), h))"

definition reads_registers :: "'h host \<Rightarrow> ('h \<Rightarrow> string \<Rightarrow> string) \<Rightarrow> string set \<Rightarrow> bool" where
  "reads_registers H rd R \<longleftrightarrow>
     (\<forall>h. \<forall>q\<in>R. host_eval H (''@'' @ q) h = (Inr (VStr (rd h q)), h))"

definition writes_registers ::
  "'h host \<Rightarrow> ('h \<Rightarrow> string \<Rightarrow> string) \<Rightarrow> string set \<Rightarrow> string set \<Rightarrow> bool" where
  "writes_registers H rd Q V \<longleftrightarrow>
     (\<forall>h. \<forall>q\<in>Q. \<forall>v\<in>V. \<exists>h'.
        host_command H (let_register q (escape_string_dq v)) h = (Inr (), h') \<and>
        rd h' q = v \<and> (\<forall>q'\<in>Q. q' \<noteq> q \<longrightarrow> rd h' q' = rd h q'))"

definition leaves_registers ::
  "'h host \<Rightarrow> ('h \<Rightarrow> string \<Rightarrow> string) \<Rightarrow> string set \<Rightarrow> string set \<Rightarrow> bool" where
  "leaves_registers H rd S Q \<longleftrightarrow>
     (\<forall>h v. \<forall>s\<in>S. \<forall>q\<in>Q. rd (snd (host_command H (let_register s v) h)) q = rd h q)"

text \<open>The two keystroke commands \<^verbatim>\<open>preserve_mode\<close> can send, as the editor receives them.\<close>

definition reselect_command :: string where
  \<open>reselect_command = ''execute "normal gv"''\<close>

definition cancel_command :: string where
  \<open>cancel_command = ''execute "normal '' @ [CHR 0x5C] @ ''<esc>"''\<close>

text \<open>The text a register is rewritten with on exit: empty when \<^verbatim>\<open>None\<close> was saved.\<close>

definition restore_command :: "'h host \<Rightarrow> old_regs \<Rightarrow> string \<Rightarrow> string" where
  "restore_command H old reg =
     let_register reg
       (escape_string_dq (case old reg of Some (Some v) \<Rightarrow> py_str H v | _ \<Rightarrow> []))"

section \<open>A small editor to run the module against\<close>

text \<open>
  A deterministic stand-in for the editor: named registers that are independent of
  each other, a cursor, a mode and the mode of the last selection. The mode is the
  text \<^verbatim>\<open>mode(1)\<close> reports: \<^verbatim>\<open>n\<close>, \<^verbatim>\<open>v\<close>, \<^verbatim>\<open>V\<close>, and for blockwise visual mode the single
  character Ctrl-V (code 0x16). It understands the
  commands the module sends (\<^verbatim>\<open>let @r = "..."\<close>, \<^verbatim>\<open>call setpos('.', [0, r, c, 0])\<close>,
  \<^verbatim>\<open>execute "normal ..."\<close> for a few keys, \<^verbatim>\<open>redir\<close>) and rejects everything else as the
  editor does, with an error. In a double-quoted string a backslash escapes the next
  character, so a text that ends in a backslash swallows the closing quote
  (\<^verbatim>\<open>E114: Missing quote\<close>).
\<close>

record stub =
  stub_regs :: "string \<Rightarrow> string"
  stub_cursor :: "int \<times> int"
  stub_mode :: string
  stub_lastvis :: string

definition parse_let :: "string \<Rightarrow> (string \<times> string) option" where
  \<open>parse_let cmd =
     (if take 5 cmd = ''let @'' then
        (let rest = drop 5 cmd;
             name = takeWhile (\<lambda>c. c \<noteq> CHR '' '') rest;
             val = drop (length name) rest
         in if take 4 val = '' = "'' \<and> 5 \<le> length val \<and> last val = CHR 0x22
            then Some (name, butlast (drop 4 val)) else None)
      else None)\<close>

fun unescape :: "string \<Rightarrow> string option" where
  "unescape [] = Some []"
| "unescape [c] = (if c = CHR 0x5C \<or> c = CHR 0x22 then None else Some [c])"
| "unescape (c # d # cs) =
     (if c = CHR 0x5C then
        (if d = CHR 0x5C \<or> d = CHR 0x22 then map_option ((#) d) (unescape cs) else None)
      else if c = CHR 0x22 then None
      else map_option ((#) c) (unescape (d # cs)))"

definition parse_setpos :: "string \<Rightarrow> (int \<times> int) option" where
  "parse_setpos cmd =
     (let pre = ''call setpos('.', [0, ''; suf = '', 0])'' in
      if take (length pre) cmd = pre \<and> length pre + length suf \<le> length cmd \<and>
         drop (length cmd - length suf) cmd = suf
      then
        (let mid = take (length cmd - length pre - length suf) (drop (length pre) cmd);
             r = takeWhile (\<lambda>c. c \<noteq> CHR '','') mid;
             c = drop (length r + 2) mid
         in case (py_int r, py_int c) of
              (Some r', Some c') \<Rightarrow> Some (r', c')
            | _ \<Rightarrow> None)
      else None)"

definition stub_eval :: "string \<Rightarrow> stub \<Rightarrow> (exn + vval) \<times> stub" where
  "stub_eval expr h =
     (if expr = ''getpos('.')'' then
        (Inr (VList [VStr ''0'', VStr (str_int (fst (stub_cursor h))),
                     VStr (str_int (snd (stub_cursor h))), VStr ''0'']), h)
      else if expr = ''mode(1)'' then (Inr (VStr (stub_mode h)), h)
      else
        (case expr of
           c # name \<Rightarrow>
             if c = CHR ''@'' then (Inr (VStr (stub_regs h name)), h)
             else (Inl (VimError ''E15: Invalid expression''), h)
         | [] \<Rightarrow> (Inl (VimError ''E15: Invalid expression''), h)))"

definition stub_command :: "string \<Rightarrow> stub \<Rightarrow> (exn + unit) \<times> stub" where
  "stub_command cmd h =
     (case parse_let cmd of
        Some (name, raw) \<Rightarrow>
          (case unescape raw of
             None \<Rightarrow> (Inl (VimError ''E114: Missing quote''), h)
           | Some v \<Rightarrow> (Inr (), h\<lparr>stub_regs := (stub_regs h)(name := v)\<rparr>))
      | None \<Rightarrow>
          (case parse_setpos cmd of
             Some p \<Rightarrow> (Inr (), h\<lparr>stub_cursor := p\<rparr>)
           | None \<Rightarrow>
               if cmd = reselect_command then (Inr (), h\<lparr>stub_mode := stub_lastvis h\<rparr>)
               else if cmd = cancel_command then
                 (Inr (), h\<lparr>stub_mode := ''n'',
                            stub_lastvis := (if stub_mode h = ''n'' then stub_lastvis h else stub_mode h)\<rparr>)
               else if cmd = execute_normal ''normal'' ''v'' then (Inr (), h\<lparr>stub_mode := ''v''\<rparr>)
               else if cmd = execute_normal ''normal'' ''V'' then (Inr (), h\<lparr>stub_mode := ''V''\<rparr>)
               else if cmd = execute_normal ''normal'' [CHR 0x16] then
                 (Inr (), h\<lparr>stub_mode := [CHR 0x16]\<rparr>)
               else if cmd = ''redir @a'' then (Inr (), h\<lparr>stub_regs := (stub_regs h)(''a'' := [])\<rparr>)
               else if cmd = ''redir END'' \<or> cmd = ''redraw!'' then (Inr (), h)
               else (Inl (VimError ''E492: Not an editor command''), h)))"

definition stub_host :: "stub host" where
  "stub_host = \<lparr>host_eval = stub_eval, host_command = stub_command,
                 leader_sub = (\<lambda>repl k. Inr k), str_of_list = (\<lambda>xs. [])\<rparr>"

text \<open>
  A starting state: register \<^verbatim>\<open>a\<close> holds \<^verbatim>\<open>hello\<close>, register \<^verbatim>\<open>b\<close> is empty, the two
  special registers hold \<^verbatim>\<open>yank\<close>, the cursor is at row 3, column 7, in normal mode.
\<close>

definition stub_start :: stub where
  "stub_start =
     \<lparr>stub_regs = (\<lambda>r. [])(''a'' := ''hello'', ''0'' := ''yank'', [CHR 0x22] := ''yank''),
      stub_cursor = (3, 7), stub_mode = ''n'', stub_lastvis = ''v''\<rparr>"

definition start_world :: "(nat, stub) world" where
  "start_world = \<lparr>mapped_functions = Map.empty, vim_state = stub_start, trace = []\<rparr>"

text \<open>Callables for the examples: the callable \<open>n\<close> has identity \<open>n\<close> and returns \<open>n\<close>.\<close>

definition nat_call :: "nat \<Rightarrow> (nat, nat, stub) prog" where
  "nat_call n = return n"

text \<open>
  More starting states: one in characterwise visual mode, one in blockwise visual
  mode, one where register \<^verbatim>\<open>a\<close> holds a text that ends in a backslash, and one as
  after a yank and a later deletion, where register \<^verbatim>\<open>0\<close> holds \<^verbatim>\<open>yank\<close> and the unnamed
  register holds \<^verbatim>\<open>cut\<close>.
\<close>

definition visual_world :: "(nat, stub) world" where
  "visual_world = start_world\<lparr>vim_state := stub_start\<lparr>stub_mode := ''v''\<rparr>\<rparr>"

definition block_world :: "(nat, stub) world" where
  "block_world = start_world\<lparr>vim_state := stub_start\<lparr>stub_mode := [CHR 0x16]\<rparr>\<rparr>"

definition backslash_world :: "(nat, stub) world" where
  "backslash_world =
     start_world\<lparr>vim_state := stub_start\<lparr>stub_regs := (stub_regs stub_start)(''a'' := ''C:'' @ [CHR 0x5C])\<rparr>\<rparr>"

definition cut_world :: "(nat, stub) world" where
  "cut_world =
     start_world\<lparr>vim_state := stub_start\<lparr>stub_regs := (stub_regs stub_start)([CHR 0x22] := ''cut'')\<rparr>\<rparr>"

text \<open>
  Wrapped operations for the examples: single keystrokes through \<^verbatim>\<open>keys\<close>, an
  operation that does nothing, a command the editor rejects, and an operation that
  moves the cursor, overwrites registers
  \<^verbatim>\<open>a\<close>, \<^verbatim>\<open>b\<close> and \<^verbatim>\<open>0\<close>, enters visual mode and then fails.
\<close>

definition press_v :: "(unit, nat, stub) prog" where
  "press_v = keys stub_host ''v'' True"

definition press_V :: "(unit, nat, stub) prog" where
  "press_V = keys stub_host ''V'' True"

definition press_esc :: "(unit, nat, stub) prog" where
  "press_esc = keys stub_host esc_keys True"

definition press_ctrl_v :: "(unit, nat, stub) prog" where
  "press_ctrl_v = keys stub_host [CHR 0x16] True"

definition idle :: "(unit, nat, stub) prog" where
  "idle = return ()"

definition bogus :: "(unit, nat, stub) prog" where
  "bogus = vim_command stub_host ''frobnicate''"

definition busy :: "(unit, nat, stub) prog" where
  "busy =
     bind (set_cursor_position stub_host (10, 1)) (\<lambda>_.
       bind (set_register stub_host ''a'' (VStr ''junk'')) (\<lambda>_.
         bind (set_register stub_host ''b'' (VStr ''more'')) (\<lambda>_.
           bind (set_register stub_host ''0'' (VStr ''mid'')) (\<lambda>_.
             bind press_v (\<lambda>_. bogus)))))"

section \<open>Integers as text\<close>

text \<open>
  Formatting an integer and reading it back with \<^verbatim>\<open>int\<close> gives the integer again, so
  different integers have different texts.
\<close>

declare str_nat.simps [simp del]

lemma is_digit_digit_char: "d < 10 \<Longrightarrow> is_digit (digit_char d)"
  by (simp add: is_digit_def digit_char_def)

lemma digit_val_digit_char: "d < 10 \<Longrightarrow> digit_val (digit_char d) = d"
  by (simp add: digit_val_def digit_char_def)

lemma parse_digits_all:
  "\<forall>c\<in>set ds. is_digit c \<Longrightarrow>
     parse_digits acc ds = Some (foldl (\<lambda>a c. 10 * a + digit_val c) acc ds)"
  by (induction ds arbitrary: acc) auto

lemma str_nat_digits: "c \<in> set (str_nat n) \<Longrightarrow> is_digit c"
proof (induction n rule: str_nat.induct)
  case (1 n)
  then show ?case
    by (subst (asm) str_nat.simps) (auto simp: is_digit_digit_char split: if_splits)
qed

lemma str_nat_nonempty: "str_nat n \<noteq> []"
  by (subst str_nat.simps) simp

lemma str_nat_value: "foldl (\<lambda>a c. 10 * a + digit_val c) 0 (str_nat n) = n"
proof (induction n rule: str_nat.induct)
  case (1 n)
  show ?case
  proof (cases "n < 10")
    case True
    then show ?thesis by (subst str_nat.simps) (simp add: digit_val_digit_char)
  next
    case False
    with 1 show ?thesis by (subst str_nat.simps) (simp add: digit_val_digit_char)
  qed
qed

lemma parse_nat_str_nat: "parse_nat (str_nat n) = Some n"
proof -
  obtain c cs where eq: "str_nat n = c # cs"
    using str_nat_nonempty [of n] by (cases "str_nat n") auto
  have dig: "\<forall>x\<in>set (c # cs). is_digit x"
    using str_nat_digits [of _ n] eq by auto
  have "parse_digits (digit_val c) cs = Some (foldl (\<lambda>a c. 10 * a + digit_val c) (digit_val c) cs)"
    using dig by (intro parse_digits_all) simp
  also have "foldl (\<lambda>a c. 10 * a + digit_val c) (digit_val c) cs = n"
    using str_nat_value [of n] eq by simp
  finally show ?thesis using dig by (simp add: parse_nat_def eq)
qed

lemma digit_not_space: "is_digit c \<Longrightarrow> \<not> py_isspace c"
  by (auto simp: is_digit_def py_isspace_def)

lemma digit_not_sign: "is_digit c \<Longrightarrow> c \<noteq> CHR ''-'' \<and> c \<noteq> CHR ''+'' \<and> c \<noteq> CHR '',''"
  by (auto simp: is_digit_def)

lemma dropWhile_hd: "xs \<noteq> [] \<Longrightarrow> \<not> P (hd xs) \<Longrightarrow> dropWhile P xs = xs"
  by (cases xs) auto

lemma py_strip_id:
  assumes "s \<noteq> []" "\<not> py_isspace (hd s)" "\<not> py_isspace (last s)"
  shows "py_strip s = s"
proof -
  have 1: "dropWhile py_isspace s = s" using assms by (intro dropWhile_hd)
  have 2: "dropWhile py_isspace (rev s) = rev s"
    using assms by (intro dropWhile_hd) (auto simp: hd_rev)
  show ?thesis by (simp add: py_strip_def 1 2)
qed

lemma py_strip_str_nat: "py_strip (str_nat n) = str_nat n"
proof (rule py_strip_id)
  show "str_nat n \<noteq> []" by (rule str_nat_nonempty)
  show "\<not> py_isspace (hd (str_nat n))"
    using str_nat_nonempty [of n] str_nat_digits [of "hd (str_nat n)" n] digit_not_space by auto
  show "\<not> py_isspace (last (str_nat n))"
    using str_nat_nonempty [of n] str_nat_digits [of "last (str_nat n)" n] digit_not_space by auto
qed

lemma py_int_str_int: "py_int (str_int i) = Some i"
proof (cases "i < 0")
  case True
  have "py_strip (CHR ''-'' # str_nat (nat (- i))) = CHR ''-'' # str_nat (nat (- i))"
  proof (rule py_strip_id)
    show "\<not> py_isspace (last (CHR ''-'' # str_nat (nat (- i))))"
      using str_nat_nonempty [of "nat (- i)"] str_nat_digits [of "last (str_nat (nat (- i)))" "nat (- i)"]
        digit_not_space by auto
  qed (auto simp: py_isspace_def)
  with True show ?thesis by (simp add: py_int_def str_int_def parse_nat_str_nat)
next
  case False
  obtain c cs where eq: "str_nat (nat i) = c # cs"
    using str_nat_nonempty [of "nat i"] by (cases "str_nat (nat i)") auto
  then have "is_digit c" using str_nat_digits [of c "nat i"] by simp
  then have sign: "c \<noteq> CHR ''-''" "c \<noteq> CHR ''+''" using digit_not_sign by auto
  have strip: "py_strip (c # cs) = c # cs"
    using py_strip_str_nat [of "nat i"] eq by simp
  have "py_int (str_nat (nat i)) = map_option int (parse_nat (str_nat (nat i)))"
    unfolding py_int_def eq strip using sign by simp
  then show ?thesis using False by (simp add: str_int_def parse_nat_str_nat)
qed

lemma str_int_inj: "str_int i = str_int j \<Longrightarrow> i = j"
  by (metis py_int_str_int option.inject)

lemma handle_inj:
  "''snake.dispatch_mapped_function('' @ str_int i @ '')'' =
   ''snake.dispatch_mapped_function('' @ str_int j @ '')'' \<Longrightarrow> i = j"
  by (simp add: str_int_inj)

section \<open>The registry\<close>

text \<open>
  Claim C1. Dispatching the key under which \<^verbatim>\<open>register_fn\<close> stored a callable \<open>f\<close> finds
  \<open>f\<close>, invokes it once with no arguments (one \<open>Invoke f\<close> is recorded, and what
  follows is what \<open>f\<close> itself does) and returns exactly what \<open>f\<close> returns: its value
  or its exception, and the world it leaves.
\<close>

theorem dispatch_of_registered:
  "mapped_functions (snd (register_fn py_id f w)) (py_id f) = Some f \<and>
   dispatch_mapped_function py_call (py_id f) (snd (register_fn py_id f w)) =
     py_call f ((snd (register_fn py_id f w))\<lparr>trace := trace w @ [Invoke f]\<rparr>)"
  by (simp add: register_fn_def dispatch_mapped_function_def invoke_def Let_def)

text \<open>
  Claim C2. For a key that is not in the dictionary, \<^verbatim>\<open>dispatch_mapped_function\<close> raises
  the exception that carries the stale-handle message for that key, and nothing else
  happens: the world is returned as it was, so no callable was invoked and nothing was
  sent to the editor. (The code raises Python's plain \<^verbatim>\<open>Exception\<close> with that message.)
\<close>

theorem dispatch_unregistered:
  "mapped_functions w key = None \<Longrightarrow>
   dispatch_mapped_function py_call key w = (Inl (Exception (stale_message key)), w)"
  by (simp add: dispatch_mapped_function_def raise_def)

theorem dispatch_unregistered_witness:
  "mapped_functions start_world 42 = None \<and>
   dispatch_mapped_function nat_call 42 start_world = (Inl (Exception (stale_message 42)), start_world)"
  using dispatch_unregistered [of start_world 42 nat_call]
  by (simp add: start_world_def)

text \<open>
  Claim C6. Two distinct callable objects (different identities, whatever they do when
  called) get two different handles, and after both registrations each key still
  resolves to its own callable.
\<close>

theorem distinct_callables_distinct_handles:
  assumes "py_id f \<noteq> py_id g"
  shows "fst (register_fn py_id f w) \<noteq> fst (register_fn py_id g (snd (register_fn py_id f w))) \<and>
         mapped_functions (snd (register_fn py_id g (snd (register_fn py_id f w)))) (py_id f) = Some f \<and>
         mapped_functions (snd (register_fn py_id g (snd (register_fn py_id f w)))) (py_id g) = Some g"
  using assms by (auto simp: register_fn_def Let_def dest: str_int_inj)

theorem distinct_callables_distinct_handles_witness:
  "int 3 \<noteq> int 4 \<and>
   fst (register_fn int (3::nat) start_world) \<noteq> fst (register_fn int 4 (snd (register_fn int 3 start_world))) \<and>
   mapped_functions (snd (register_fn int 4 (snd (register_fn int 3 start_world)))) (int 3) = Some 3 \<and>
   mapped_functions (snd (register_fn int 4 (snd (register_fn int 3 start_world)))) (int 4) = Some 4"
  using distinct_callables_distinct_handles [of int 3 4 start_world]
  by simp

text \<open>
  Claim C5, as stated, fails: the handle is not freshly chosen. The key is
  \<^verbatim>\<open>id(fn)\<close>, so registering the same callable a second time returns the handle that is
  already in use and leaves the dictionary as it was.
\<close>

theorem register_fn_repeated_counterexample:
  "fst (register_fn int (7::nat) (snd (register_fn int 7 start_world))) = fst (register_fn int 7 start_world) \<and>
   mapped_functions (snd (register_fn int 7 start_world)) (int 7) = Some 7 \<and>
   snd (register_fn int (7::nat) (snd (register_fn int 7 start_world))) = snd (register_fn int 7 start_world)"
  by (simp add: register_fn_def Let_def)

text \<open>
  Claim C5, amended. \<^verbatim>\<open>register_fn(fn)\<close> stores \<open>fn\<close> under the key \<^verbatim>\<open>id(fn)\<close> and returns
  the text \<^verbatim>\<open>snake.dispatch_mapped_function(<key>)\<close>. Every other entry of the dictionary,
  the editor and the record of calls are untouched. The handle differs from the handle
  of every callable with another identity and equals the handle of every registration
  of a callable with the same identity; registering \<open>fn\<close> again changes nothing.
\<close>

theorem register_fn_effect:
  assumes "register_fn py_id fn w = (handle, w')"
  shows "handle = ''snake.dispatch_mapped_function('' @ str_int (py_id fn) @ '')'' \<and>
         mapped_functions w' (py_id fn) = Some fn \<and>
         (\<forall>k. k \<noteq> py_id fn \<longrightarrow> mapped_functions w' k = mapped_functions w k) \<and>
         vim_state w' = vim_state w \<and> trace w' = trace w \<and>
         (\<forall>g w''. py_id g \<noteq> py_id fn \<longrightarrow> fst (register_fn py_id g w'') \<noteq> handle) \<and>
         (\<forall>g w''. py_id g = py_id fn \<longrightarrow> fst (register_fn py_id g w'') = handle) \<and>
         register_fn py_id fn w' = (handle, w')"
  using assms by (auto simp: register_fn_def Let_def dest: str_int_inj)

theorem register_fn_effect_witness:
  "register_fn int (7::nat) start_world =
     (''snake.dispatch_mapped_function(7)'', start_world\<lparr>mapped_functions := [7 \<mapsto> 7]\<rparr>) \<and>
   mapped_functions (start_world\<lparr>mapped_functions := [7 \<mapsto> 7]\<rparr>) (int 7) = Some (7::nat) \<and>
   mapped_functions (start_world\<lparr>mapped_functions := [7 \<mapsto> 7]\<rparr>) 8 = mapped_functions start_world 8 \<and>
   fst (register_fn int (8::nat) start_world) \<noteq> ''snake.dispatch_mapped_function(7)'' \<and>
   register_fn int (7::nat) (start_world\<lparr>mapped_functions := [7 \<mapsto> 7]\<rparr>) =
     (''snake.dispatch_mapped_function(7)'', start_world\<lparr>mapped_functions := [7 \<mapsto> 7]\<rparr>)"
proof -
  have s7: "str_int 7 = ''7''" by code_simp
  have s8: "str_int 8 = ''8''" by code_simp
  have r: "register_fn int (7::nat) start_world =
     (''snake.dispatch_mapped_function(7)'', start_world\<lparr>mapped_functions := [7 \<mapsto> 7]\<rparr>)"
    by (simp add: register_fn_def Let_def s7 start_world_def)
  from register_fn_effect [OF r] r show ?thesis
    by (simp add: start_world_def register_fn_def Let_def s7 s8)
qed

section \<open>Running the helpers\<close>

text \<open>
  Each helper that only sends one command is that command: the value \<^verbatim>\<open>command\<close> returns
  is dropped by its callers.
\<close>

lemma bind_return [simp]: "bind (return x) k = k x"
  by (rule ext) (simp add: bind_def return_def)

lemma bind_raise [simp]: "bind (raise e) k = raise e"
  by (rule ext) (simp add: bind_def raise_def)

lemma vim_command_run:
  "vim_command H cmd w =
     (fst (host_command H cmd (vim_state w)),
      w\<lparr>vim_state := snd (host_command H cmd (vim_state w)), trace := trace w @ [Command cmd]\<rparr>)"
  by (simp add: vim_command_def split: prod.splits)

lemma vim_eval_run:
  "vim_eval H expr w =
     (fst (host_eval H expr (vim_state w)),
      w\<lparr>vim_state := snd (host_eval H expr (vim_state w)), trace := trace w @ [Eval expr]\<rparr>)"
  by (simp add: vim_eval_def split: prod.splits)

lemma command_plain_unit: "bind (command_plain H cmd) (\<lambda>_. return ()) = vim_command H cmd"
  by (rule ext) (simp add: command_plain_def bind_def return_def split: prod.splits sum.splits)

lemma set_register_run:
  "set_register H name val = vim_command H (let_register name (escape_string_dq (py_str H val)))"
  by (simp add: set_register_def command_plain_unit)

lemma clear_register_run: "clear_register H name = vim_command H (let_register name [])"
  by (simp add: clear_register_def set_register_run py_str_def escape_string_dq_def)

lemma set_cursor_position_run: "set_cursor_position H p = vim_command H (setpos_command p)"
  by (simp add: set_cursor_position_def command_plain_unit)

lemma keys_gv_run: "keys H ''gv'' True = vim_command H reselect_command"
  by (simp add: keys_def escape_string_dq_def lower_char_def
      command_plain_unit execute_normal_def reselect_command_def)

lemma keys_esc_run: "keys H esc_keys True = vim_command H cancel_command"
  by (simp add: keys_def esc_keys_def escape_string_dq_def lower_char_def
      command_plain_unit execute_normal_def cancel_command_def)

lemma get_register_run:
  "get_register H name w =
     (case fst (host_eval H (''@'' @ name) (vim_state w)) of
        Inl e \<Rightarrow> Inl e
      | Inr val \<Rightarrow> Inr (if val = VStr [] then None else Some val),
      w\<lparr>vim_state := snd (host_eval H (''@'' @ name) (vim_state w)),
        trace := trace w @ [Eval (''@'' @ name)]\<rparr>)"
  by (simp add: get_register_def bind_def return_def vim_eval_run split: sum.splits)

lemma keys_plain_run:
  "\<not> contains ''leader'' (map lower_char (escape_string_dq k)) \<Longrightarrow>
   keys H k True = vim_command H (execute_normal ''normal'' (escape_string_dq k))"
  by (simp add: keys_def command_plain_unit)

lemma with_block_run:
  "enter w = (Inr s, w1) \<Longrightarrow> body w1 = (r, w2) \<Longrightarrow>
   with_block enter exit body w =
     (case fst (exit s w2) of Inl e \<Rightarrow> Inl e | Inr _ \<Rightarrow> r, snd (exit s w2))"
  by (simp add: with_block_def split: prod.splits sum.splits)

lemma get_mode_run:
  "get_mode H w =
     (fst (host_eval H ''mode(1)'' (vim_state w)),
      w\<lparr>vim_state := snd (host_eval H ''mode(1)'' (vim_state w)), trace := trace w @ [Eval ''mode(1)'']\<rparr>)"
  by (simp add: get_mode_def vim_eval_run)

lemma preserve_mode_exit_reselect:
  assumes "get_mode H w2 = (Inr (VStr ''n''), w3)" "old_mode \<in> set visual_modes"
  shows "preserve_mode_exit H old_mode w2 = vim_command H reselect_command w3"
  using assms by (simp add: preserve_mode_exit_def bind_def keys_gv_run)

lemma preserve_mode_exit_cancel:
  assumes "get_mode H w2 = (Inr cur_mode, w3)" "cur_mode \<in> set visual_modes"
  shows "preserve_mode_exit H (VStr ''n'') w2 = vim_command H cancel_command w3"
  using assms by (auto simp: preserve_mode_exit_def bind_def keys_esc_run visual_modes_def)

lemma preserve_mode_exit_nothing:
  assumes "get_mode H w2 = (Inr cur_mode, w3)"
    and "\<not> (cur_mode = VStr ''n'' \<and> old_mode \<in> set visual_modes)"
    and "\<not> (cur_mode \<in> set visual_modes \<and> old_mode = VStr ''n'')"
  shows "preserve_mode_exit H old_mode w2 = (Inr (), w3)"
  using assms by (auto simp: preserve_mode_exit_def bind_def return_def)

lemma with_block_raised:
  "enter w = (Inr s, w1) \<Longrightarrow> body w1 = (Inl e, w2) \<Longrightarrow>
   with_block enter exit body w = after_restoration e (exit s w2)"
  by (simp add: with_block_def after_restoration_def split: prod.splits sum.splits)

lemma get_register_never_empty: "fst (get_register H name w) \<noteq> Inr (Some (VStr []))"
  by (simp add: get_register_run split: sum.splits)

lemma bind_never:
  "(\<And>y w'. fst (k y w') \<noteq> Inr x) \<Longrightarrow> fst (bind m k w) \<noteq> Inr x"
  by (auto simp: bind_def split: prod.splits sum.splits)

lemma capture_body_never_empty: "fst (capture_body H cmd w) \<noteq> Inr (Some (VStr []))"
  unfolding capture_body_def
  by (intro bind_never get_register_never_empty)

lemma with_block_never:
  "(\<And>w1. fst (body w1) \<noteq> Inr x) \<Longrightarrow> fst (with_block enter exit body w) \<noteq> Inr x"
  by (auto simp: with_block_def split: prod.splits sum.splits) (metis fst_conv)

lemma fst_eqD: "fst X = a \<Longrightarrow> X = (a, snd X)"
  by (cases X) simp

lemma normal_not_visual: "VStr ''n'' \<notin> set visual_modes"
  by (simp add: visual_modes_def)

subsection \<open>The loops over registers\<close>

lemma restore_step:
  "old q = Some c \<Longrightarrow>
   restore_registers H old (q # rs) =
     bind (vim_command H (restore_command H old q)) (\<lambda>_. restore_registers H old rs)"
  by (cases c)
    (simp_all add: restore_command_def clear_register_run set_register_run escape_string_dq_def)

lemma capture_and_clear_dom:
  "capture_and_clear H regs old w = (Inr old', w') \<Longrightarrow> dom old' = dom old \<union> set regs"
proof (induction regs arbitrary: old w)
  case Nil
  then show ?case by (simp add: return_def)
next
  case (Cons reg regs)
  from Cons.prems obtain c w1 where
    "capture_and_clear H regs (old(reg \<mapsto> c)) w1 = (Inr old', w')"
    by (auto simp: bind_def split: prod.splits sum.splits)
  from Cons.IH [OF this] show ?case by auto
qed

lemma capture_only_dom:
  "capture_only H regs old w = (Inr old', w') \<Longrightarrow> dom old' = dom old \<union> set regs"
proof (induction regs arbitrary: old w)
  case Nil
  then show ?case by (simp add: return_def)
next
  case (Cons reg regs)
  from Cons.prems obtain c w1 where
    "capture_only H regs (old(reg \<mapsto> c)) w1 = (Inr old', w')"
    by (auto simp: bind_def split: prod.splits sum.splits)
  from Cons.IH [OF this] show ?case by auto
qed

lemma enter_dom:
  assumes "preserve_registers_enter H regs w = (Inr old, w1)"
  shows "dom old = set regs \<union> set special_regs"
proof -
  from assms obtain o1 wa where a: "capture_and_clear H regs Map.empty w = (Inr o1, wa)"
    and b: "capture_only H special_regs o1 wa = (Inr old, w1)"
    by (auto simp: preserve_registers_enter_def bind_def split: prod.splits sum.splits)
  from capture_and_clear_dom [OF a] capture_only_dom [OF b] show ?thesis by simp
qed




lemma restore_trace_grows: "\<exists>evs. trace (snd (restore_registers H old rs w)) = trace w @ evs"
proof (induction rs arbitrary: w)
  case Nil
  then show ?case by (simp add: return_def)
next
  case (Cons q rs)
  show ?case
  proof (cases "old q")
    case None
    then show ?thesis by (simp add: raise_def)
  next
    case (Some c)
    let ?wa = "snd (vim_command H (restore_command H old q) w)"
    obtain evs where "trace (snd (restore_registers H old rs ?wa)) = trace ?wa @ evs"
      using Cons.IH by blast
    then show ?thesis
      unfolding restore_step [where old = old and q = q, OF Some]
      by (auto simp: bind_def vim_command_run split: prod.splits sum.splits)
  qed
qed

lemma restore_append:
  "restore_registers H old (xs @ ys) =
     bind (restore_registers H old xs) (\<lambda>_. restore_registers H old ys)"
proof (induction xs)
  case Nil
  show ?case by simp
next
  case (Cons x xs)
  show ?case
    by (rule ext) (simp add: Cons.IH bind_def split: prod.splits sum.splits)
qed


subsection \<open>On an editor that keeps what it is told\<close>

lemma reads_registers_mono:
  "reads_registers H rd R \<Longrightarrow> R' \<subseteq> R \<Longrightarrow> reads_registers H rd R'"
  by (auto simp: reads_registers_def)

lemma get_register_law:
  assumes "reads_registers H rd R" "q \<in> R"
  shows "get_register H q w = (Inr (reg_value (rd (vim_state w) q)), w\<lparr>trace := trace w @ [Eval (''@'' @ q)]\<rparr>)"
proof -
  have "host_eval H (''@'' @ q) (vim_state w) = (Inr (VStr (rd (vim_state w) q)), vim_state w)"
    using assms by (simp add: reads_registers_def)
  then show ?thesis by (simp add: get_register_run reg_value_def)
qed

lemma write_law:
  assumes "writes_registers H rd Q V" "q \<in> Q" "v \<in> V"
  shows "\<exists>w'. vim_command H (let_register q (escape_string_dq v)) w = (Inr (), w') \<and>
           rd (vim_state w') q = v \<and>
           (\<forall>q'\<in>Q. q' \<noteq> q \<longrightarrow> rd (vim_state w') q' = rd (vim_state w) q')"
proof -
  from assms obtain h' where
    "host_command H (let_register q (escape_string_dq v)) (vim_state w) = (Inr (), h')"
    "rd h' q = v" "\<forall>q'\<in>Q. q' \<noteq> q \<longrightarrow> rd h' q' = rd (vim_state w) q'"
    unfolding writes_registers_def by blast
  then show ?thesis by (simp add: vim_command_run)
qed

lemma capture_and_clear_law:
  assumes R: "reads_registers H rd Q" and W: "writes_registers H rd Q V" and e: "[] \<in> V"
  shows "set regs \<subseteq> Q \<Longrightarrow>
    \<exists>old' w'. capture_and_clear H regs old w = (Inr old', w') \<and>
      (\<forall>q\<in>set regs. rd (vim_state w') q = []) \<and>
      (\<forall>q\<in>Q - set regs. rd (vim_state w') q = rd (vim_state w) q) \<and>
      (distinct regs \<longrightarrow> (\<forall>q\<in>set regs. old' q = Some (reg_value (rd (vim_state w) q)))) \<and>
      (\<forall>q. q \<notin> set regs \<longrightarrow> old' q = old q)"
proof (induction regs arbitrary: old w)
  case Nil
  then show ?case by (simp add: return_def)
next
  case (Cons reg regs)
  then have regQ: "reg \<in> Q" and sub: "set regs \<subseteq> Q" by auto
  let ?c = "reg_value (rd (vim_state w) reg)"
  let ?wa = "w\<lparr>trace := trace w @ [Eval (''@'' @ reg)]\<rparr>"
  have g: "get_register H reg w = (Inr ?c, ?wa)"
    using get_register_law [OF R regQ] .
  obtain wb where cl: "clear_register H reg ?wa = (Inr (), wb)"
    and b1: "rd (vim_state wb) reg = []"
    and b2: "\<forall>q'\<in>Q. q' \<noteq> reg \<longrightarrow> rd (vim_state wb) q' = rd (vim_state w) q'"
    using write_law [OF W regQ e, of ?wa]
    by (auto simp: clear_register_run escape_string_dq_def)
  obtain old' w' where rest: "capture_and_clear H regs (old(reg \<mapsto> ?c)) wb = (Inr old', w')"
    and i1: "\<forall>q\<in>set regs. rd (vim_state w') q = []"
    and i2: "\<forall>q\<in>Q - set regs. rd (vim_state w') q = rd (vim_state wb) q"
    and i3: "distinct regs \<longrightarrow> (\<forall>q\<in>set regs. old' q = Some (reg_value (rd (vim_state wb) q)))"
    and i4: "\<forall>q. q \<notin> set regs \<longrightarrow> old' q = (old(reg \<mapsto> ?c)) q"
    using Cons.IH [OF sub, of "old(reg \<mapsto> ?c)" wb] by blast
  have run: "capture_and_clear H (reg # regs) old w = (Inr old', w')"
    using g cl rest by (simp add: bind_def)
  have c1: "\<forall>q\<in>set (reg # regs). rd (vim_state w') q = []"
    using i1 i2 b1 regQ by auto
  have c2: "\<forall>q\<in>Q - set (reg # regs). rd (vim_state w') q = rd (vim_state w) q"
    using i2 b2 by auto
  have c3: "distinct (reg # regs) \<longrightarrow>
      (\<forall>q\<in>set (reg # regs). old' q = Some (reg_value (rd (vim_state w) q)))"
  proof (intro impI ballI)
    fix q assume d: "distinct (reg # regs)" and q: "q \<in> set (reg # regs)"
    show "old' q = Some (reg_value (rd (vim_state w) q))"
    proof (cases "q = reg")
      case True
      then show ?thesis using i4 d by simp
    next
      case False
      then have "q \<in> set regs" using q by simp
      then show ?thesis using i3 d b2 sub False by auto
    qed
  qed
  have c4: "\<forall>q. q \<notin> set (reg # regs) \<longrightarrow> old' q = old q"
    using i4 by auto
  show ?case using run c1 c2 c3 c4 by blast
qed

lemma capture_only_law:
  assumes R: "reads_registers H rd S"
  shows "set ss \<subseteq> S \<Longrightarrow>
    \<exists>old' w'. capture_only H ss old w = (Inr old', w') \<and> vim_state w' = vim_state w \<and>
      (distinct ss \<longrightarrow> (\<forall>q\<in>set ss. old' q = Some (reg_value (rd (vim_state w) q)))) \<and>
      (\<forall>q. q \<notin> set ss \<longrightarrow> old' q = old q)"
proof (induction ss arbitrary: old w)
  case Nil
  then show ?case by (simp add: return_def)
next
  case (Cons s ss)
  then have sS: "s \<in> S" and sub: "set ss \<subseteq> S" by auto
  let ?c = "reg_value (rd (vim_state w) s)"
  let ?wa = "w\<lparr>trace := trace w @ [Eval (''@'' @ s)]\<rparr>"
  have g: "get_register H s w = (Inr ?c, ?wa)"
    using get_register_law [OF R sS] .
  obtain old' w' where rest: "capture_only H ss (old(s \<mapsto> ?c)) ?wa = (Inr old', w')"
    and i1: "vim_state w' = vim_state ?wa"
    and i3: "distinct ss \<longrightarrow> (\<forall>q\<in>set ss. old' q = Some (reg_value (rd (vim_state ?wa) q)))"
    and i2: "\<forall>q. q \<notin> set ss \<longrightarrow> old' q = (old(s \<mapsto> ?c)) q"
    using Cons.IH [OF sub, of "old(s \<mapsto> ?c)" ?wa] by blast
  have run: "capture_only H (s # ss) old w = (Inr old', w')"
    using g rest by (simp add: bind_def)
  have c3: "distinct (s # ss) \<longrightarrow>
      (\<forall>q\<in>set (s # ss). old' q = Some (reg_value (rd (vim_state w) q)))"
    using i2 i3 by auto
  show ?case using run i1 i2 c3 by auto
qed

lemma restore_command_saved:
  "old q = Some (reg_value v) \<Longrightarrow> restore_command H old q = let_register q (escape_string_dq v)"
  by (simp add: restore_command_def reg_value_def py_str_def escape_string_dq_def split: if_splits)

lemma restore_named_law:
  assumes W: "writes_registers H rd Q V"
  shows "set regs \<subseteq> Q \<Longrightarrow> distinct regs \<Longrightarrow>
    \<forall>q\<in>set regs. old q = Some (reg_value (v q)) \<and> v q \<in> V \<Longrightarrow>
    \<exists>w'. restore_registers H old regs w = (Inr (), w') \<and>
      (\<forall>q\<in>set regs. rd (vim_state w') q = v q) \<and>
      (\<forall>q\<in>Q - set regs. rd (vim_state w') q = rd (vim_state w) q)"
proof (induction regs arbitrary: w)
  case Nil
  then show ?case by (simp add: return_def)
next
  case (Cons reg regs)
  then have regQ: "reg \<in> Q" and sub: "set regs \<subseteq> Q" and d: "distinct regs"
    and fresh: "reg \<notin> set regs"
    and sv: "old reg = Some (reg_value (v reg))" and vV: "v reg \<in> V"
    and rest_saved: "\<forall>q\<in>set regs. old q = Some (reg_value (v q)) \<and> v q \<in> V"
    by auto
  have cmd: "restore_command H old reg = let_register reg (escape_string_dq (v reg))"
    using sv by (rule restore_command_saved)
  obtain wa where s1: "vim_command H (restore_command H old reg) w = (Inr (), wa)"
    and a1: "rd (vim_state wa) reg = v reg"
    and a2: "\<forall>q'\<in>Q. q' \<noteq> reg \<longrightarrow> rd (vim_state wa) q' = rd (vim_state w) q'"
    using write_law [OF W regQ vV, of w] unfolding cmd by blast
  obtain w' where r: "restore_registers H old regs wa = (Inr (), w')"
    and i1: "\<forall>q\<in>set regs. rd (vim_state w') q = v q"
    and i2: "\<forall>q\<in>Q - set regs. rd (vim_state w') q = rd (vim_state wa) q"
    using Cons.IH [OF sub d rest_saved, of wa] by blast
  have "restore_registers H old (reg # regs) w = (Inr (), w')"
    unfolding restore_step [where old = old and q = reg, OF sv] by (simp add: bind_def s1 r)
  moreover have "\<forall>q\<in>set (reg # regs). rd (vim_state w') q = v q"
    using i1 i2 a1 regQ fresh by auto
  moreover have "\<forall>q\<in>Q - set (reg # regs). rd (vim_state w') q = rd (vim_state w) q"
    using i2 a2 by auto
  ultimately show ?case by blast
qed

lemma restore_special_law:
  assumes L: "leaves_registers H rd S Q"
  shows "set ss \<subseteq> S \<Longrightarrow>
    \<forall>q\<in>Q. rd (vim_state (snd (restore_registers H old ss w))) q = rd (vim_state w) q"
proof (induction ss arbitrary: w)
  case Nil
  then show ?case by (simp add: return_def)
next
  case (Cons s ss)
  then have sS: "s \<in> S" and sub: "set ss \<subseteq> S" by auto
  show ?case
  proof (cases "old s")
    case None
    then show ?thesis by (simp add: raise_def)
  next
    case (Some c)
    let ?cmd = "restore_command H old s"
    let ?wa = "snd (vim_command H ?cmd w)"
    have "\<exists>v. ?cmd = let_register s v" by (auto simp: restore_command_def)
    then have fr: "\<forall>q\<in>Q. rd (vim_state ?wa) q = rd (vim_state w) q"
      using L sS by (auto simp: leaves_registers_def vim_command_run)
    have ih: "\<forall>q\<in>Q. rd (vim_state (snd (restore_registers H old ss ?wa))) q = rd (vim_state ?wa) q"
      using Cons.IH [OF sub] .
    show ?thesis
      unfolding restore_step [where old = old and q = s, OF Some]
      using fr ih by (auto simp: bind_def split: prod.splits sum.splits)
  qed
qed

lemma get_cursor_position_law:
  assumes "cursor_host H cur P"
  shows "get_cursor_position H w =
     (Inr (cur (vim_state w)), w\<lparr>trace := trace w @ [Eval ''getpos('.')'']\<rparr>)"
proof -
  obtain a d where "host_eval H ''getpos('.')'' (vim_state w) =
      (Inr (VList [a, VStr (str_int (fst (cur (vim_state w)))),
                   VStr (str_int (snd (cur (vim_state w)))), d]), vim_state w)"
    using assms unfolding cursor_host_def by blast
  then show ?thesis
    by (simp add: get_cursor_position_def bind_def return_def vim_eval_run unpack4_def py_iter_def
        int_of_vval_def py_int_str_int)
qed

lemma preserve_cursor_law:
  assumes C: "cursor_host H cur P" and p: "cur (vim_state w) \<in> P"
  shows "cur (vim_state (snd (preserve_cursor H body w))) = cur (vim_state w)"
proof -
  let ?p = "cur (vim_state w)"
  let ?w1 = "w\<lparr>trace := trace w @ [Eval ''getpos('.')'']\<rparr>"
  have e: "get_cursor_position H w = (Inr ?p, ?w1)"
    using get_cursor_position_law [OF C] .
  obtain r w2 where b: "body ?w1 = (r, w2)" by (cases "body ?w1")
  obtain h' where "host_command H (setpos_command ?p) (vim_state w2) = (Inr (), h')" "cur h' = ?p"
    using C p unfolding cursor_host_def by blast
  then have "cur (vim_state (snd (set_cursor_position H ?p w2))) = ?p"
    by (simp add: set_cursor_position_run vim_command_run)
  then show ?thesis
    unfolding preserve_cursor_def
    using with_block_run [where enter = "get_cursor_position H" and exit = "set_cursor_position H"
        and body = body and w = w, OF e b]
    by simp
qed

lemma get_mode_law:
  assumes "mode_host H md"
  shows "get_mode H w = (Inr (VStr (md (vim_state w))), w\<lparr>trace := trace w @ [Eval ''mode(1)'']\<rparr>)"
  using assms by (simp add: get_mode_run mode_host_def)

lemma preserve_registers_law:
  assumes R: "reads_registers H rd (set regs \<union> set special_regs)"
    and W: "writes_registers H rd (set regs) V"
    and L: "leaves_registers H rd (set special_regs) (set regs)"
    and d: "distinct regs" and disj: "set regs \<inter> set special_regs = {}"
    and e: "[] \<in> V" and inV: "\<forall>q\<in>set regs. rd (vim_state w) q \<in> V"
  shows "\<forall>q\<in>set regs. rd (vim_state (snd (preserve_registers H regs body w))) q = rd (vim_state w) q"
proof -
  have Rn: "reads_registers H rd (set regs)" and Rs: "reads_registers H rd (set special_regs)"
    using R by (auto intro: reads_registers_mono)
  obtain o1 wa where cc: "capture_and_clear H regs Map.empty w = (Inr o1, wa)"
    and o1: "\<forall>q\<in>set regs. o1 q = Some (reg_value (rd (vim_state w) q))"
    using capture_and_clear_law [OF Rn W e, of regs Map.empty w] d by auto
  obtain old w1 where co: "capture_only H special_regs o1 wa = (Inr old, w1)"
    and o2: "\<forall>q. q \<notin> set special_regs \<longrightarrow> old q = o1 q"
    using capture_only_law [OF Rs, of special_regs o1 wa] by auto
  have enter: "preserve_registers_enter H regs w = (Inr old, w1)"
    using cc co by (simp add: preserve_registers_enter_def bind_def)
  have saved: "\<forall>q\<in>set regs. old q = Some (reg_value (rd (vim_state w) q)) \<and> rd (vim_state w) q \<in> V"
    using o1 o2 disj inV by auto
  obtain r w2 where b: "body w1 = (r, w2)" by (cases "body w1")
  obtain wn where rn: "restore_registers H old regs w2 = (Inr (), wn)"
    and n1: "\<forall>q\<in>set regs. rd (vim_state wn) q = rd (vim_state w) q"
    using restore_named_law [OF W, of regs old "rd (vim_state w)" w2] d saved by auto
  have ex: "snd (preserve_registers_exit H regs old w2) = snd (restore_registers H old special_regs wn)"
    using rn by (simp add: preserve_registers_exit_def restore_append bind_def)
  have "\<forall>q\<in>set regs. rd (vim_state (snd (restore_registers H old special_regs wn))) q = rd (vim_state wn) q"
    using restore_special_law [OF L, of special_regs old wn] by simp
  then have "\<forall>q\<in>set regs. rd (vim_state (snd (preserve_registers_exit H regs old w2))) q = rd (vim_state w) q"
    using ex n1 by simp
  then show ?thesis
    unfolding preserve_registers_def
    using with_block_run [where enter = "preserve_registers_enter H regs"
        and exit = "preserve_registers_exit H regs" and body = body and w = w, OF enter b]
    by simp
qed

lemma preserve_mode_law:
  fixes w :: "('f, 'h) world" and body :: "('a, 'f, 'h) prog"
  assumes M: "mode_host H md"
  defines "w1 \<equiv> w\<lparr>trace := trace w @ [Eval ''mode(1)'']\<rparr>"
  defines "w2 \<equiv> snd (body w1)"
  shows "snd (preserve_mode H body w) =
     (if md (vim_state w2) = ''n'' \<and> VStr (md (vim_state w)) \<in> set visual_modes
      then snd (vim_command H reselect_command (w2\<lparr>trace := trace w2 @ [Eval ''mode(1)'']\<rparr>))
      else if VStr (md (vim_state w2)) \<in> set visual_modes \<and> md (vim_state w) = ''n''
      then snd (vim_command H cancel_command (w2\<lparr>trace := trace w2 @ [Eval ''mode(1)'']\<rparr>))
      else w2\<lparr>trace := trace w2 @ [Eval ''mode(1)'']\<rparr>)"
proof -
  let ?old = "VStr (md (vim_state w))"
  let ?w3 = "w2\<lparr>trace := trace w2 @ [Eval ''mode(1)'']\<rparr>"
  have e: "get_mode H w = (Inr ?old, w1)"
    unfolding w1_def using get_mode_law [OF M] .
  have b: "body w1 = (fst (body w1), w2)" by (simp add: w2_def)
  have g: "get_mode H w2 = (Inr (VStr (md (vim_state w2))), ?w3)"
    using get_mode_law [OF M] .
  have blk: "snd (preserve_mode H body w) = snd (preserve_mode_exit H ?old w2)"
    unfolding preserve_mode_def
    using with_block_run [where enter = "get_mode H" and exit = "preserve_mode_exit H"
        and body = body and w = w, OF e b]
    by simp
  show ?thesis
  proof (cases "md (vim_state w2) = ''n'' \<and> ?old \<in> set visual_modes")
    case True
    then show ?thesis
      using preserve_mode_exit_reselect [of H w2 ?w3 ?old] g by (simp add: blk)
  next
    case n1: False
    show ?thesis
    proof (cases "VStr (md (vim_state w2)) \<in> set visual_modes \<and> md (vim_state w) = ''n''")
      case True
      then show ?thesis
        using preserve_mode_exit_cancel [of H w2 "VStr (md (vim_state w2))" ?w3] g n1
        by (auto simp: blk normal_not_visual)
    next
      case False
      then show ?thesis
        using preserve_mode_exit_nothing [of H w2 "VStr (md (vim_state w2))" ?w3 ?old] g n1
        by (auto simp: blk)
    qed
  qed
qed

section \<open>The small editor meets the assumptions\<close>

lemma stub_host_sel [simp]:
  "host_eval stub_host = stub_eval" "host_command stub_host = stub_command"
  by (simp_all add: stub_host_def)

lemma takeWhile_upto:
  "\<forall>y\<in>set xs. P y \<Longrightarrow> \<not> P x \<Longrightarrow> takeWhile P (xs @ x # l) = xs"
  by (induction xs) auto

lemma parse_let_let_register:
  assumes "CHR '' '' \<notin> set q"
  shows "parse_let (let_register q raw) = Some (q, raw)"
proof -
  have tw: "takeWhile (\<lambda>c. c \<noteq> CHR '' '') (q @ CHR '' '' # l) = q" for l
    using assms by (intro takeWhile_upto) auto
  show ?thesis
    using tw [of "''= '' @ [CHR 0x22] @ raw @ [CHR 0x22]"]
    by (simp add: parse_let_def let_register_def Let_def)
qed

lemma unescape_plain:
  "c \<noteq> CHR 0x5C \<Longrightarrow> c \<noteq> CHR 0x22 \<Longrightarrow> unescape (c # rest) = map_option ((#) c) (unescape rest)"
  by (cases rest) auto

lemma unescape_escape:
  "CHR 0x5C \<notin> set v \<Longrightarrow> unescape (escape_string_dq v) = Some v"
proof (induction v)
  case Nil
  then show ?case by (simp add: escape_string_dq_def)
next
  case (Cons c v)
  then have ih: "unescape (escape_string_dq v) = Some v" by simp
  show ?case
  proof (cases "c = CHR 0x22")
    case True
    then show ?thesis using ih by (simp add: escape_string_dq_def)
  next
    case False
    moreover have "c \<noteq> CHR 0x5C" using Cons.prems by auto
    ultimately show ?thesis using ih unescape_plain [of c "escape_string_dq v"]
      by (simp add: escape_string_dq_def)
  qed
qed

lemma stub_let:
  assumes "CHR '' '' \<notin> set q"
  shows "stub_command (let_register q raw) h =
     (case unescape raw of
        None \<Rightarrow> (Inl (VimError ''E114: Missing quote''), h)
      | Some v \<Rightarrow> (Inr (), h\<lparr>stub_regs := (stub_regs h)(q := v)\<rparr>))"
  by (simp add: stub_command_def parse_let_let_register [OF assms])

lemma stub_read: "stub_eval (CHR ''@'' # q) h = (Inr (VStr (stub_regs h q)), h)"
  by (simp add: stub_eval_def)

lemma stub_mode_read: "stub_eval ''mode(1)'' h = (Inr (VStr (stub_mode h)), h)"
  by (simp add: stub_eval_def)

lemma stub_getpos:
  "stub_eval ''getpos('.')'' h =
     (Inr (VList [VStr ''0'', VStr (str_int (fst (stub_cursor h))),
                  VStr (str_int (snd (stub_cursor h))), VStr ''0'']), h)"
  by (simp add: stub_eval_def)

lemma stub_reselect: "stub_command reselect_command h = (Inr (), h\<lparr>stub_mode := stub_lastvis h\<rparr>)"
  by (simp add: stub_command_def parse_let_def parse_setpos_def reselect_command_def)

lemma stub_cancel:
  "stub_command cancel_command h =
     (Inr (), h\<lparr>stub_mode := ''n'',
                stub_lastvis := (if stub_mode h = ''n'' then stub_lastvis h else stub_mode h)\<rparr>)"
  by (simp add: stub_command_def parse_let_def parse_setpos_def reselect_command_def cancel_command_def)

lemma stub_press_v:
  "stub_command (execute_normal ''normal'' ''v'') h = (Inr (), h\<lparr>stub_mode := ''v''\<rparr>)"
  by (simp add: stub_command_def parse_let_def parse_setpos_def reselect_command_def
      cancel_command_def execute_normal_def)

lemma stub_press_V:
  "stub_command (execute_normal ''normal'' ''V'') h = (Inr (), h\<lparr>stub_mode := ''V''\<rparr>)"
  by (simp add: stub_command_def parse_let_def parse_setpos_def reselect_command_def
      cancel_command_def execute_normal_def)

lemma stub_bogus:
  "stub_command ''frobnicate'' h = (Inl (VimError ''E492: Not an editor command''), h)"
  by (simp add: stub_command_def parse_let_def parse_setpos_def reselect_command_def
      cancel_command_def execute_normal_def)

lemma press_v_run: "press_v = vim_command stub_host (execute_normal ''normal'' ''v'')"
  unfolding press_v_def by (subst keys_plain_run) (simp_all add: escape_string_dq_def lower_char_def)

lemma press_V_run: "press_V = vim_command stub_host (execute_normal ''normal'' ''V'')"
  unfolding press_V_def by (subst keys_plain_run) (simp_all add: escape_string_dq_def lower_char_def)

lemma stub_press_ctrl_v:
  "stub_command (execute_normal ''normal'' [CHR 0x16]) h = (Inr (), h\<lparr>stub_mode := [CHR 0x16]\<rparr>)"
  by (simp add: stub_command_def parse_let_def parse_setpos_def reselect_command_def
      cancel_command_def execute_normal_def)

lemma press_ctrl_v_run:
  "press_ctrl_v = vim_command stub_host (execute_normal ''normal'' [CHR 0x16])"
  unfolding press_ctrl_v_def by (subst keys_plain_run) (simp_all add: escape_string_dq_def lower_char_def)

lemma press_esc_run: "press_esc = vim_command stub_host cancel_command"
  by (simp add: press_esc_def keys_esc_run)

lemma stub_redir_a: "stub_command ''redir @a'' h = (Inr (), h\<lparr>stub_regs := (stub_regs h)(''a'' := [])\<rparr>)"
  by (simp add: stub_command_def parse_let_def parse_setpos_def reselect_command_def
      cancel_command_def execute_normal_def)

lemma stub_redir_end: "stub_command ''redir END'' h = (Inr (), h)"
  by (simp add: stub_command_def parse_let_def parse_setpos_def reselect_command_def
      cancel_command_def execute_normal_def)

lemma stub_redraw: "stub_command ''redraw!'' h = (Inr (), h)"
  by (simp add: stub_command_def parse_let_def parse_setpos_def reselect_command_def
      cancel_command_def execute_normal_def)

lemma str_int_no_comma: "CHR '','' \<notin> set (str_int i)"
  using str_nat_digits digit_not_sign by (auto simp: str_int_def)

lemma take_prefix3: "take (length p) (p @ m @ s) = p"
  by simp

lemma drop_suffix3: "drop (length (p @ m @ s) - length s) (p @ m @ s) = s"
  by simp

lemma take_mid3: "take (length (p @ m @ s) - length p - length s) (drop (length p) (p @ m @ s)) = m"
  by simp

lemma length_fits3: "length p + length s \<le> length (p @ m @ s)"
  by simp

lemma parse_setpos_shape:
  assumes "CHR '','' \<notin> set R"
  shows "parse_setpos (''call setpos('.', [0, '' @ (R @ '', '' @ C) @ '', 0])'') =
     (case (py_int R, py_int C) of (Some r', Some c') \<Rightarrow> Some (r', c') | _ \<Rightarrow> None)"
proof -
  have tw: "takeWhile (\<lambda>c. c \<noteq> CHR '','') (R @ '', '' @ C) = R"
    using assms by (auto simp: takeWhile_tail takeWhile_eq_all_conv)
  have dr: "drop (length R + 2) (R @ '', '' @ C) = C" by simp
  show ?thesis
    unfolding parse_setpos_def Let_def
    by (simp only: take_prefix3 drop_suffix3 take_mid3 length_fits3 if_True simp_thms tw dr)
qed

lemma parse_setpos_setpos_command: "parse_setpos (setpos_command (r, c)) = Some (r, c)"
proof -
  have "setpos_command (r, c) =
      ''call setpos('.', [0, '' @ (str_int r @ '', '' @ str_int c) @ '', 0])''"
    by (simp add: setpos_command_def)
  then show ?thesis
    using parse_setpos_shape [OF str_int_no_comma, of r "str_int c"]
    by (simp only: py_int_str_int prod.case option.case)
qed

lemma parse_let_setpos_command: "parse_let (setpos_command p) = None"
  by (simp add: parse_let_def setpos_command_def)

lemma stub_setpos: "stub_command (setpos_command p) h = (Inr (), h\<lparr>stub_cursor := p\<rparr>)"
  using parse_setpos_setpos_command [of "fst p" "snd p"]
  by (simp add: stub_command_def parse_let_setpos_command)

lemma stub_cursor_host: "cursor_host stub_host stub_cursor UNIV"
  by (simp add: cursor_host_def stub_getpos stub_setpos)

lemma stub_mode_host: "mode_host stub_host stub_mode"
  by (simp add: mode_host_def stub_mode_read)

lemma stub_reads_registers: "reads_registers stub_host stub_regs R"
  by (simp add: reads_registers_def stub_read)

lemma stub_writes_registers:
  assumes "\<forall>q\<in>Q. CHR '' '' \<notin> set q" "\<forall>v\<in>V. CHR 0x5C \<notin> set v"
  shows "writes_registers stub_host stub_regs Q V"
  using assms by (simp add: writes_registers_def stub_let unescape_escape)

lemma stub_leaves_registers:
  assumes "\<forall>s\<in>S. CHR '' '' \<notin> set s" "S \<inter> Q = {}"
  shows "leaves_registers stub_host stub_regs S Q"
  using assms by (auto simp: leaves_registers_def stub_let split: option.splits)

lemmas stub_run =
  preserve_registers_enter_def preserve_registers_exit_def special_regs_def
  get_register_run clear_register_run set_register_run vim_command_run
  bind_def return_def raise_def py_str_def escape_string_dq_def
  stub_read stub_let stub_redir_a stub_redir_end stub_redraw stub_bogus
  start_world_def stub_start_def

lemmas busy_run =
  busy_def set_cursor_position_run set_register_run press_v_run bogus_def vim_command_run
  bind_def py_str_def escape_string_dq_def stub_setpos stub_let stub_press_v stub_bogus
  start_world_def stub_start_def

lemmas block_run =
  preserve_registers_def preserve_cursor_def preserve_mode_def with_block_def
  preserve_mode_exit_def get_mode_run keys_gv_run keys_esc_run stub_mode_read stub_cancel stub_reselect
  get_cursor_position_law [OF stub_cursor_host] visual_modes_def backslash_world_def

section \<open>Scoped state preservation: the claims\<close>

text \<open>
  What \<^verbatim>\<open>preserve_mode\<close> sends for the modes of its tuple \<open>visual_modes\<close>. Let \<open>old_mode\<close>
  be the mode read on entry and \<open>cur_mode\<close> the mode read after the wrapped operation.
  If \<open>old_mode\<close> is in the tuple and \<open>cur_mode\<close> is normal mode, the helper sends the
  reselect keystroke \<^verbatim>\<open>gv\<close> and nothing else; if \<open>old_mode\<close> is normal mode and \<open>cur_mode\<close>
  is in the tuple, it sends the escape keystroke and nothing else. In both cases the
  editor is left in the state that command produces.
\<close>

lemma preserve_mode_keystrokes:
  assumes "get_mode H w = (Inr old_mode, w1)" and "body w1 = (r, w2)"
    and "get_mode H w2 = (Inr cur_mode, w3)"
  shows "(old_mode \<in> set visual_modes \<and> cur_mode = VStr ''n'' \<longrightarrow>
            trace (snd (preserve_mode H body w)) =
              trace w2 @ [Eval ''mode(1)'', Command reselect_command] \<and>
            vim_state (snd (preserve_mode H body w)) =
              snd (host_command H reselect_command (vim_state w3))) \<and>
         (old_mode = VStr ''n'' \<and> cur_mode \<in> set visual_modes \<longrightarrow>
            trace (snd (preserve_mode H body w)) =
              trace w2 @ [Eval ''mode(1)'', Command cancel_command] \<and>
            vim_state (snd (preserve_mode H body w)) =
              snd (host_command H cancel_command (vim_state w3)))"
proof -
  have blk: "preserve_mode H body w =
      (case fst (preserve_mode_exit H old_mode w2) of Inl e \<Rightarrow> Inl e | Inr _ \<Rightarrow> r,
       snd (preserve_mode_exit H old_mode w2))"
    unfolding preserve_mode_def using assms(1,2) by (rule with_block_run)
  have tr: "trace w3 = trace w2 @ [Eval ''mode(1)'']"
    using assms(3) by (auto simp: get_mode_run)
  show ?thesis
  proof (intro conjI impI)
    assume a: "old_mode \<in> set visual_modes \<and> cur_mode = VStr ''n''"
    then have ex: "preserve_mode_exit H old_mode w2 = vim_command H reselect_command w3"
      using preserve_mode_exit_reselect assms(3) by blast
    show "trace (snd (preserve_mode H body w)) = trace w2 @ [Eval ''mode(1)'', Command reselect_command]"
      by (simp add: blk ex vim_command_run tr)
    show "vim_state (snd (preserve_mode H body w)) = snd (host_command H reselect_command (vim_state w3))"
      by (simp add: blk ex vim_command_run)
  next
    assume a: "old_mode = VStr ''n'' \<and> cur_mode \<in> set visual_modes"
    then have ex: "preserve_mode_exit H old_mode w2 = vim_command H cancel_command w3"
      using preserve_mode_exit_cancel assms(3) by blast
    show "trace (snd (preserve_mode H body w)) = trace w2 @ [Eval ''mode(1)'', Command cancel_command]"
      by (simp add: blk ex vim_command_run tr)
    show "vim_state (snd (preserve_mode H body w)) = snd (host_command H cancel_command (vim_state w3))"
      by (simp add: blk ex vim_command_run)
  qed
qed

text \<open>
  Claim C8 fails on the code for one of the three selection modes. The third entry of
  \<open>visual_modes\<close> is the two-character text \<^verbatim>\<open>^V\<close>, a caret and a letter, while the editor
  reports blockwise visual mode as the single character Ctrl-V, so the comparison on
  exit never finds that mode. Entered in characterwise visual mode and left in normal
  mode, the helper sends \<^verbatim>\<open>gv\<close> and the selection is back. Entered in blockwise visual
  mode and left in normal mode, it sends nothing and the editor stays in normal mode.
  Entered in normal mode and left in blockwise visual mode, it sends no escape and the
  editor stays in blockwise visual mode.
\<close>

theorem blockwise_visual_mode_missed:
  "fst (get_mode stub_host visual_world) = Inr (VStr ''v'') \<and>
   trace (snd (preserve_mode stub_host press_esc visual_world)) =
     [Eval ''mode(1)'', Command cancel_command, Eval ''mode(1)'', Command reselect_command] \<and>
   fst (get_mode stub_host (snd (preserve_mode stub_host press_esc visual_world))) = Inr (VStr ''v'') \<and>
   fst (get_mode stub_host block_world) = Inr (VStr [CHR 0x16]) \<and>
   fst (get_mode stub_host (snd (press_esc (snd (get_mode stub_host block_world))))) = Inr (VStr ''n'') \<and>
   trace (snd (preserve_mode stub_host press_esc block_world)) =
     [Eval ''mode(1)'', Command cancel_command, Eval ''mode(1)''] \<and>
   fst (get_mode stub_host (snd (preserve_mode stub_host press_esc block_world))) = Inr (VStr ''n'') \<and>
   fst (get_mode stub_host start_world) = Inr (VStr ''n'') \<and>
   fst (get_mode stub_host (snd (press_ctrl_v (snd (get_mode stub_host start_world))))) =
     Inr (VStr [CHR 0x16]) \<and>
   trace (snd (preserve_mode stub_host press_ctrl_v start_world)) =
     [Eval ''mode(1)'', Command (execute_normal ''normal'' [CHR 0x16]), Eval ''mode(1)''] \<and>
   fst (get_mode stub_host (snd (preserve_mode stub_host press_ctrl_v start_world))) =
     Inr (VStr [CHR 0x16])"
  by (simp add: block_run press_esc_run press_ctrl_v_run vim_command_run stub_press_ctrl_v
      bind_def return_def visual_world_def block_world_def start_world_def stub_start_def)

text \<open>
  Claim C10. \<^verbatim>\<open>get_register\<close> returns \<^verbatim>\<open>None\<close> when the editor reports the empty string
  for the register, and never returns the empty string. Hence \<^verbatim>\<open>command(cmd, capture=True)\<close>
  never returns the empty string either, and returns \<^verbatim>\<open>None\<close> when, after the three
  \<^verbatim>\<open>redir\<close> steps went through, register \<^verbatim>\<open>a\<close> reads empty (the command produced no
  output) and the restoration succeeds. \<^verbatim>\<open>command(cmd, capture=False)\<close> returns \<^verbatim>\<open>None\<close>
  whenever \<^verbatim>\<open>vim.command\<close> returns, and otherwise raises what \<^verbatim>\<open>vim.command\<close> raised.
\<close>

theorem empty_register_is_none:
  "(fst (host_eval H (''@'' @ name) (vim_state w)) = Inr (VStr []) \<longrightarrow>
      fst (get_register H name w) = Inr None) \<and>
   fst (get_register H name w) \<noteq> Inr (Some (VStr [])) \<and>
   (preserve_registers_enter H [''a''] w = (Inr old, w1) \<and>
    vim_command H ''redir @a'' w1 = (Inr (), w2) \<and>
    vim_command H cmd w2 = (Inr (), w3) \<and>
    vim_command H ''redir END'' w3 = (Inr (), w4) \<and>
    fst (host_eval H ''@a'' (vim_state w4)) = Inr (VStr []) \<and>
    preserve_registers_exit H [''a''] old (snd (get_register H ''a'' w4)) = (Inr (), w6) \<longrightarrow>
      command H cmd True w = (Inr None, w6)) \<and>
   fst (command H cmd True w) \<noteq> Inr (Some (VStr [])) \<and>
   fst (command H cmd False w) =
     (case fst (host_command H cmd (vim_state w)) of Inl e \<Rightarrow> Inl e | Inr _ \<Rightarrow> Inr None)"
proof (intro conjI impI)
  show "fst (get_register H name w) = Inr None"
    if "fst (host_eval H (''@'' @ name) (vim_state w)) = Inr (VStr [])"
    using that by (simp add: get_register_run)
  show "fst (get_register H name w) \<noteq> Inr (Some (VStr []))"
    by (rule get_register_never_empty)
  show "fst (command H cmd True w) \<noteq> Inr (Some (VStr []))"
    unfolding command_def preserve_registers_def
    by (simp add: with_block_never capture_body_never_empty)
  show "fst (command H cmd False w) =
     (case fst (host_command H cmd (vim_state w)) of Inl e \<Rightarrow> Inl e | Inr _ \<Rightarrow> Inr None)"
    by (simp add: command_def command_plain_def bind_def return_def vim_command_run split: sum.splits)
next
  assume a: "preserve_registers_enter H [''a''] w = (Inr old, w1) \<and>
    vim_command H ''redir @a'' w1 = (Inr (), w2) \<and>
    vim_command H cmd w2 = (Inr (), w3) \<and>
    vim_command H ''redir END'' w3 = (Inr (), w4) \<and>
    fst (host_eval H ''@a'' (vim_state w4)) = Inr (VStr []) \<and>
    preserve_registers_exit H [''a''] old (snd (get_register H ''a'' w4)) = (Inr (), w6)"
  then have g: "get_register H ''a'' w4 = (Inr None, snd (get_register H ''a'' w4))"
    by (simp add: get_register_run)
  have body: "capture_body H cmd w1 = (Inr None, snd (get_register H ''a'' w4))"
    using a g by (simp add: capture_body_def bind_def)
  show "command H cmd True w = (Inr None, w6)"
    using a with_block_run [where enter = "preserve_registers_enter H [''a'']"
        and exit = "preserve_registers_exit H [''a'']" and body = "capture_body H cmd"
        and w = w and s = old and ?w1.0 = w1, OF _ body]
    by (simp add: command_def preserve_registers_def)
qed

theorem empty_register_is_none_witness:
  "fst (command stub_host ''redraw!'' True start_world) = Inr None \<and>
   stub_regs (vim_state (snd (command stub_host ''redraw!'' True start_world))) ''a'' = ''hello'' \<and>
   fst (command stub_host ''redraw!'' False start_world) = Inr None \<and>
   fst (get_register stub_host ''b'' start_world) = Inr None"
proof -
  define old :: old_regs where
    "old = [''a'' \<mapsto> Some (VStr ''hello''), ''0'' \<mapsto> Some (VStr ''yank''),
            [CHR 0x22] \<mapsto> Some (VStr ''yank'')]"
  define w1 where "w1 = snd (preserve_registers_enter stub_host [''a''] start_world)"
  define w2 where "w2 = snd (vim_command stub_host ''redir @a'' w1)"
  define w3 where "w3 = snd (vim_command stub_host ''redraw!'' w2)"
  define w4 where "w4 = snd (vim_command stub_host ''redir END'' w3)"
  define w6 where "w6 = snd (preserve_registers_exit stub_host [''a''] old (snd (get_register stub_host ''a'' w4)))"
  have e: "preserve_registers_enter stub_host [''a''] start_world = (Inr old, w1)"
    unfolding w1_def old_def by (intro fst_eqD) (simp add: stub_run)
  have c2: "vim_command stub_host ''redir @a'' w1 = (Inr (), w2)"
    unfolding w2_def by (intro fst_eqD) (simp add: stub_run)
  have c3: "vim_command stub_host ''redraw!'' w2 = (Inr (), w3)"
    unfolding w3_def by (intro fst_eqD) (simp add: stub_run)
  have c4: "vim_command stub_host ''redir END'' w3 = (Inr (), w4)"
    unfolding w4_def by (intro fst_eqD) (simp add: stub_run)
  have r: "fst (host_eval stub_host ''@a'' (vim_state w4)) = Inr (VStr [])"
    unfolding w4_def w3_def w2_def w1_def by (simp add: stub_run)
  have x: "preserve_registers_exit stub_host [''a''] old (snd (get_register stub_host ''a'' w4)) = (Inr (), w6)"
    unfolding w6_def old_def by (intro fst_eqD) (simp add: stub_run)
  have b: "fst (host_eval stub_host (''@'' @ ''b'') (vim_state start_world)) = Inr (VStr [])"
    by (simp add: stub_run)
  have a6: "stub_regs (vim_state w6) ''a'' = ''hello''"
    unfolding w6_def old_def w4_def w3_def w2_def w1_def by (simp add: stub_run)
  have f: "fst (host_command stub_host ''redraw!'' (vim_state start_world)) = Inr ()"
    by (simp add: stub_run)
  from empty_register_is_none [of stub_host "''b''" start_world old w1 w2 "''redraw!''" w3 w4 w6]
    e c2 c3 c4 r x b a6 f
  show ?thesis by simp
qed





text \<open>
  Claim C7, as stated, fails: the failure of the wrapped operation does not always
  reach the caller unchanged. If the restoration step itself fails, its exception
  replaces the original one. Here register \<^verbatim>\<open>a\<close> holds a text ending in a backslash; the
  wrapped operation fails with \<^verbatim>\<open>E492\<close>, the restore command for \<^verbatim>\<open>a\<close> is rejected by the
  editor, and the caller sees \<^verbatim>\<open>E114\<close>.
\<close>

theorem restoration_failure_counterexample:
  "\<not> isl (fst (preserve_registers_enter stub_host [''a''] backslash_world)) \<and>
   fst (bogus (snd (preserve_registers_enter stub_host [''a''] backslash_world))) =
     Inl (VimError ''E492: Not an editor command'') \<and>
   fst (preserve_registers stub_host [''a''] bogus backslash_world) =
     Inl (VimError ''E114: Missing quote'')"
  by (simp add: block_run stub_run busy_run)

text \<open>
  Claim C7, amended. When the wrapped operation inside \<^verbatim>\<open>preserve_cursor\<close>,
  \<^verbatim>\<open>preserve_mode\<close> or \<^verbatim>\<open>preserve_registers\<close> raises \<open>e\<close>, the block's restoration step
  runs on the world the operation left (the cursor command is sent; the mode is read;
  the first register is rewritten), and the block's outcome is that of the restoration
  step followed by \<open>e\<close>: the caller sees \<open>e\<close> itself when the restoration step
  completes, and the restoration step's own exception when it raises one.
\<close>

theorem failure_passes_through_restoration:
  fixes w :: "('f, 'h) world" and body :: "('a, 'f, 'h) prog"
  shows
  "(get_cursor_position H w = (Inr p, w1) \<and> body w1 = (Inl e, w2) \<longrightarrow>
      preserve_cursor H body w = after_restoration e (set_cursor_position H p w2) \<and>
      trace (snd (preserve_cursor H body w)) = trace w2 @ [Command (setpos_command p)]) \<and>
   (get_mode H w = (Inr old_mode, w1) \<and> body w1 = (Inl e, w2) \<longrightarrow>
      preserve_mode H body w = after_restoration e (preserve_mode_exit H old_mode w2) \<and>
      (\<exists>evs. trace (snd (preserve_mode H body w)) = trace w2 @ Eval ''mode(1)'' # evs)) \<and>
   (preserve_registers_enter H regs w = (Inr old, w1) \<and> body w1 = (Inl e, w2) \<longrightarrow>
      preserve_registers H regs body w = after_restoration e (preserve_registers_exit H regs old w2) \<and>
      (\<exists>evs. trace (snd (preserve_registers H regs body w)) =
         trace w2 @ Command (restore_command H old (hd (regs @ special_regs))) # evs))"
proof (intro conjI impI)
  assume a: "get_cursor_position H w = (Inr p, w1) \<and> body w1 = (Inl e, w2)"
  then show blk: "preserve_cursor H body w = after_restoration e (set_cursor_position H p w2)"
    unfolding preserve_cursor_def by (intro with_block_raised) auto
  show "trace (snd (preserve_cursor H body w)) = trace w2 @ [Command (setpos_command p)]"
    by (simp add: blk after_restoration_def set_cursor_position_run vim_command_run)
next
  assume a: "get_mode H w = (Inr old_mode, w1) \<and> body w1 = (Inl e, w2)"
  then show blk: "preserve_mode H body w = after_restoration e (preserve_mode_exit H old_mode w2)"
    unfolding preserve_mode_def by (intro with_block_raised) auto
  show "\<exists>evs. trace (snd (preserve_mode H body w)) = trace w2 @ Eval ''mode(1)'' # evs"
    by (auto simp: blk after_restoration_def preserve_mode_exit_def bind_def get_mode_run
        keys_gv_run keys_esc_run vim_command_run return_def split: prod.splits sum.splits)
next
  assume a: "preserve_registers_enter H regs w = (Inr old, w1) \<and> body w1 = (Inl e, w2)"
  then show blk: "preserve_registers H regs body w =
      after_restoration e (preserve_registers_exit H regs old w2)"
    unfolding preserve_registers_def by (intro with_block_raised) auto
  obtain q rest where qr: "regs @ special_regs = q # rest"
    by (cases "regs @ special_regs") (auto simp: special_regs_def)
  then have "q \<in> set regs \<union> set special_regs"
    by (metis list.set_intros(1) set_append)
  then obtain c where c: "old q = Some c" using enter_dom [of H regs w old w1] a by auto
  let ?wa = "snd (vim_command H (restore_command H old q) w2)"
  obtain evs where g: "trace (snd (restore_registers H old rest ?wa)) = trace ?wa @ evs"
    using restore_trace_grows by blast
  have "\<exists>evs. trace (snd (restore_registers H old (q # rest) w2)) =
      trace w2 @ Command (restore_command H old q) # evs"
    unfolding restore_step [where old = old and q = q, OF c]
    using g by (auto simp: bind_def vim_command_run split: prod.splits sum.splits)
  then show "\<exists>evs. trace (snd (preserve_registers H regs body w)) =
      trace w2 @ Command (restore_command H old (hd (regs @ special_regs))) # evs"
    by (simp add: blk after_restoration_def preserve_registers_exit_def qr)
qed

theorem failure_passes_through_restoration_witness:
  "fst (busy (snd (get_cursor_position stub_host start_world))) =
     Inl (VimError ''E492: Not an editor command'') \<and>
   fst (preserve_cursor stub_host busy start_world) = Inl (VimError ''E492: Not an editor command'') \<and>
   stub_cursor (vim_state (snd (preserve_cursor stub_host busy start_world))) = (3, 7) \<and>
   fst (preserve_mode stub_host busy start_world) = Inl (VimError ''E492: Not an editor command'') \<and>
   stub_mode (vim_state (snd (preserve_mode stub_host busy start_world))) = ''n'' \<and>
   fst (preserve_registers stub_host [''a''] busy start_world) =
     Inl (VimError ''E492: Not an editor command'') \<and>
   stub_regs (vim_state (snd (preserve_registers stub_host [''a''] busy start_world))) ''a'' = ''hello''"
proof -
  define e where "e = VimError ''E492: Not an editor command''"
  define c1 where "c1 = snd (get_cursor_position stub_host start_world)"
  define c2 where "c2 = snd (busy c1)"
  define m1 where "m1 = snd (get_mode stub_host start_world)"
  define m2 where "m2 = snd (busy m1)"
  define old :: old_regs where
    "old = [''a'' \<mapsto> Some (VStr ''hello''), ''0'' \<mapsto> Some (VStr ''yank''),
            [CHR 0x22] \<mapsto> Some (VStr ''yank'')]"
  define r1 where "r1 = snd (preserve_registers_enter stub_host [''a''] start_world)"
  define r2 where "r2 = snd (busy r1)"
  have ce: "get_cursor_position stub_host start_world = (Inr (3, 7), c1)"
    unfolding c1_def by (intro fst_eqD) (simp add: block_run stub_run)
  have cb: "busy c1 = (Inl e, c2)"
    unfolding c2_def c1_def e_def by (intro fst_eqD) (simp add: block_run busy_run)
  have me: "get_mode stub_host start_world = (Inr (VStr ''n''), m1)"
    unfolding m1_def by (intro fst_eqD) (simp add: block_run stub_run)
  have mb: "busy m1 = (Inl e, m2)"
    unfolding m2_def m1_def e_def by (intro fst_eqD) (simp add: block_run busy_run)
  have re: "preserve_registers_enter stub_host [''a''] start_world = (Inr old, r1)"
    unfolding r1_def old_def by (intro fst_eqD) (simp add: stub_run)
  have rb: "busy r1 = (Inl e, r2)"
    unfolding r2_def r1_def e_def by (intro fst_eqD) (simp add: stub_run busy_run)
  have x1: "fst (set_cursor_position stub_host (3, 7) c2) = Inr ()"
    by (simp add: busy_run)
  have x1': "stub_cursor (vim_state (snd (set_cursor_position stub_host (3, 7) c2))) = (3, 7)"
    by (simp add: busy_run)
  have x2: "fst (preserve_mode_exit stub_host (VStr ''n'') m2) = Inr ()"
    "stub_mode (vim_state (snd (preserve_mode_exit stub_host (VStr ''n'') m2))) = ''n''"
    unfolding m2_def m1_def by (simp_all add: block_run busy_run)
  have x3: "fst (preserve_registers_exit stub_host [''a''] old r2) = Inr ()"
    "stub_regs (vim_state (snd (preserve_registers_exit stub_host [''a''] old r2))) ''a'' = ''hello''"
    unfolding r2_def r1_def old_def by (simp_all add: stub_run busy_run)
  from failure_passes_through_restoration [where H = stub_host and w = start_world and body = busy
      and p = "(3, 7)" and ?w1.0 = c1 and e = e and ?w2.0 = c2]
    ce cb
  have C: "preserve_cursor stub_host busy start_world =
      after_restoration e (set_cursor_position stub_host (3, 7) c2)" by simp
  from failure_passes_through_restoration [where H = stub_host and w = start_world and body = busy
      and old_mode = "VStr ''n''" and ?w1.0 = m1 and e = e and ?w2.0 = m2]
    me mb
  have M: "preserve_mode stub_host busy start_world =
      after_restoration e (preserve_mode_exit stub_host (VStr ''n'') m2)" by simp
  from failure_passes_through_restoration [where H = stub_host and w = start_world and body = busy
      and regs = "[''a'']" and old = old and ?w1.0 = r1 and e = e and ?w2.0 = r2]
    re rb
  have R: "preserve_registers stub_host [''a''] busy start_world =
      after_restoration e (preserve_registers_exit stub_host [''a''] old r2)" by simp
  show ?thesis
    using cb x1 x1' x2 x3
    by (simp add: C M R after_restoration_def c1_def [symmetric] e_def [symmetric])
qed

text \<open>
  What the three blocks do keep. On an editor that keeps what it is told (see the
  assumptions above), whether the wrapped operation returns or raises:
  \<^item> the cursor position read after a \<^verbatim>\<open>preserve_cursor\<close> block is the one read before it;
  \<^item> each register passed to \<^verbatim>\<open>preserve_registers\<close> reads after the block as it did
    before, for distinct register names other than \<^verbatim>\<open>0\<close> and \<^verbatim>\<open>"\<close>;
  \<^item> after a \<^verbatim>\<open>preserve_mode\<close> block the mode is the entry mode if the wrapped operation
    left the mode as it was; it is what the editor makes of the escape keystroke if
    the block was entered in normal mode and left in a mode of \<open>visual_modes\<close>, and what
    the editor makes of \<^verbatim>\<open>gv\<close> if it was entered in a mode of \<open>visual_modes\<close> and left in
    normal mode; in every other case the mode stays as the wrapped operation left it.
\<close>

lemma preserved_on_a_faithful_editor:
  fixes w :: "('f, 'h) world" and body :: "('a, 'f, 'h) prog"
  shows
  "(cursor_host H cur P \<and> cur (vim_state w) \<in> P \<longrightarrow>
      fst (get_cursor_position H (snd (preserve_cursor H body w))) = fst (get_cursor_position H w)) \<and>
   (reads_registers H rd (set regs \<union> set special_regs) \<and>
    writes_registers H rd (set regs) V \<and>
    leaves_registers H rd (set special_regs) (set regs) \<and>
    distinct regs \<and> set regs \<inter> set special_regs = {} \<and>
    [] \<in> V \<and> (\<forall>q\<in>set regs. rd (vim_state w) q \<in> V) \<longrightarrow>
      (\<forall>q\<in>set regs.
         fst (get_register H q (snd (preserve_registers H regs body w))) = fst (get_register H q w))) \<and>
   (mode_host H md \<longrightarrow>
      (let old = md (vim_state w);
           left = vim_state (snd (body (snd (get_mode H w))));
           after = md (vim_state (snd (preserve_mode H body w)))
       in (md left = old \<longrightarrow>
             fst (get_mode H (snd (preserve_mode H body w))) = fst (get_mode H w)) \<and>
          (old = ''n'' \<and> VStr (md left) \<in> set visual_modes \<longrightarrow>
             after = md (snd (host_command H cancel_command left))) \<and>
          (VStr old \<in> set visual_modes \<and> md left = ''n'' \<longrightarrow>
             after = md (snd (host_command H reselect_command left))) \<and>
          (\<not> (old = ''n'' \<and> VStr (md left) \<in> set visual_modes) \<and>
           \<not> (VStr old \<in> set visual_modes \<and> md left = ''n'') \<longrightarrow>
             after = md left)))"
proof (intro conjI impI)
  assume a: "cursor_host H cur P \<and> cur (vim_state w) \<in> P"
  then have "cur (vim_state (snd (preserve_cursor H body w))) = cur (vim_state w)"
    using preserve_cursor_law by blast
  then show "fst (get_cursor_position H (snd (preserve_cursor H body w))) = fst (get_cursor_position H w)"
    using a by (simp add: get_cursor_position_law [of H cur P])
next
  assume a: "reads_registers H rd (set regs \<union> set special_regs) \<and>
    writes_registers H rd (set regs) V \<and>
    leaves_registers H rd (set special_regs) (set regs) \<and>
    distinct regs \<and> set regs \<inter> set special_regs = {} \<and>
    [] \<in> V \<and> (\<forall>q\<in>set regs. rd (vim_state w) q \<in> V)"
  then have same: "\<forall>q\<in>set regs. rd (vim_state (snd (preserve_registers H regs body w))) q = rd (vim_state w) q"
    using preserve_registers_law [of H rd regs V w body] by blast
  have R: "reads_registers H rd (set regs \<union> set special_regs)" using a by simp
  show "\<forall>q\<in>set regs.
      fst (get_register H q (snd (preserve_registers H regs body w))) = fst (get_register H q w)"
    using same by (simp add: get_register_law [OF R])
next
  assume M: "mode_host H md"
  have w1: "snd (get_mode H w) = w\<lparr>trace := trace w @ [Eval ''mode(1)'']\<rparr>"
    by (simp add: get_mode_law [OF M])
  show "let old = md (vim_state w);
            left = vim_state (snd (body (snd (get_mode H w))));
            after = md (vim_state (snd (preserve_mode H body w)))
        in (md left = old \<longrightarrow>
              fst (get_mode H (snd (preserve_mode H body w))) = fst (get_mode H w)) \<and>
           (old = ''n'' \<and> VStr (md left) \<in> set visual_modes \<longrightarrow>
              after = md (snd (host_command H cancel_command left))) \<and>
           (VStr old \<in> set visual_modes \<and> md left = ''n'' \<longrightarrow>
              after = md (snd (host_command H reselect_command left))) \<and>
           (\<not> (old = ''n'' \<and> VStr (md left) \<in> set visual_modes) \<and>
            \<not> (VStr old \<in> set visual_modes \<and> md left = ''n'') \<longrightarrow>
              after = md left)"
    unfolding Let_def w1
    by (auto simp: preserve_mode_law [OF M] get_mode_law [OF M] vim_command_run normal_not_visual)
qed

lemma preserved_on_a_faithful_editor_example:
  "cursor_host stub_host stub_cursor UNIV \<and>
   fst (busy start_world) = Inl (VimError ''E492: Not an editor command'') \<and>
   stub_cursor (vim_state (snd (busy start_world))) = (10, 1) \<and>
   fst (get_cursor_position stub_host start_world) = Inr (3, 7) \<and>
   fst (get_cursor_position stub_host (snd (preserve_cursor stub_host busy start_world))) = Inr (3, 7) \<and>
   reads_registers stub_host stub_regs (set [''a'', ''b''] \<union> set special_regs) \<and>
   writes_registers stub_host stub_regs (set [''a'', ''b'']) {v. CHR 0x5C \<notin> set v} \<and>
   leaves_registers stub_host stub_regs (set special_regs) (set [''a'', ''b'']) \<and>
   stub_regs (vim_state (snd (busy start_world))) ''a'' = ''junk'' \<and>
   fst (get_register stub_host ''a'' (snd (preserve_registers stub_host [''a'', ''b''] busy start_world)))
     = Inr (Some (VStr ''hello'')) \<and>
   fst (get_register stub_host ''b'' (snd (preserve_registers stub_host [''a'', ''b''] busy start_world)))
     = Inr None \<and>
   mode_host stub_host stub_mode \<and>
   stub_mode (vim_state (snd (busy (snd (get_mode stub_host start_world))))) = ''v'' \<and>
   fst (get_mode stub_host start_world) = Inr (VStr ''n'') \<and>
   fst (get_mode stub_host (snd (preserve_mode stub_host busy start_world))) = Inr (VStr ''n'')"
proof -
  have C: "cursor_host stub_host stub_cursor UNIV" by (rule stub_cursor_host)
  have M: "mode_host stub_host stub_mode" by (rule stub_mode_host)
  have R: "reads_registers stub_host stub_regs (set [''a'', ''b''] \<union> set special_regs)"
    by (rule stub_reads_registers)
  have W: "writes_registers stub_host stub_regs (set [''a'', ''b'']) {v. CHR 0x5C \<notin> set v}"
    by (rule stub_writes_registers) auto
  have L: "leaves_registers stub_host stub_regs (set special_regs) (set [''a'', ''b''])"
    by (rule stub_leaves_registers) (auto simp: special_regs_def)
  have d: "distinct [''a'', ''b''] \<and> set [''a'', ''b''] \<inter> set special_regs = {} \<and>
      [] \<in> {v. CHR 0x5C \<notin> set v} \<and>
      (\<forall>q\<in>set [''a'', ''b'']. stub_regs (vim_state start_world) q \<in> {v. CHR 0x5C \<notin> set v})"
    by (simp add: special_regs_def start_world_def stub_start_def)
  have b1: "fst (busy start_world) = Inl (VimError ''E492: Not an editor command'')"
    by (simp add: busy_run)
  have b2: "stub_cursor (vim_state (snd (busy start_world))) = (10, 1)"
    by (simp add: busy_run)
  have b3: "stub_regs (vim_state (snd (busy start_world))) ''a'' = ''junk''"
    by (simp add: busy_run)
  have c0: "fst (get_cursor_position stub_host start_world) = Inr (3, 7)"
    by (simp add: get_cursor_position_law [OF C] start_world_def stub_start_def)
  have ra: "fst (get_register stub_host ''a'' start_world) = Inr (Some (VStr ''hello''))"
    by (simp add: get_register_run stub_read start_world_def stub_start_def)
  have rb: "fst (get_register stub_host ''b'' start_world) = Inr None"
    by (simp add: get_register_run stub_read start_world_def stub_start_def)
  have m0: "fst (get_mode stub_host start_world) = Inr (VStr ''n'')"
    by (simp add: get_mode_law [OF M] start_world_def stub_start_def)
  have m1: "stub_mode (vim_state (snd (busy (snd (get_mode stub_host start_world))))) = ''v''"
    by (simp add: get_mode_law [OF M] busy_run)
  have m2: "stub_mode (vim_state start_world) = ''n''"
    by (simp add: start_world_def stub_start_def)
  have m3: "stub_mode (snd (host_command stub_host cancel_command
      (vim_state (snd (busy (snd (get_mode stub_host start_world))))))) = ''n''"
    by (simp add: stub_cancel)
  have v: "VStr ''v'' \<in> set visual_modes" by (simp add: visual_modes_def)
  from preserved_on_a_faithful_editor [where H = stub_host and cur = stub_cursor and P = UNIV
      and w = start_world and body = busy and rd = stub_regs and regs = "[''a'', ''b'']"
      and V = "{v. CHR 0x5C \<notin> set v}" and md = stub_mode]
    C M R W L d
  have cur: "fst (get_cursor_position stub_host (snd (preserve_cursor stub_host busy start_world)))
        = fst (get_cursor_position stub_host start_world)"
    and regs: "\<forall>q\<in>set [''a'', ''b''].
         fst (get_register stub_host q (snd (preserve_registers stub_host [''a'', ''b''] busy start_world)))
           = fst (get_register stub_host q start_world)"
    and mode: "stub_mode (vim_state start_world) = ''n'' \<and>
        VStr (stub_mode (vim_state (snd (busy (snd (get_mode stub_host start_world)))))) \<in> set visual_modes \<longrightarrow>
        stub_mode (vim_state (snd (preserve_mode stub_host busy start_world))) =
          stub_mode (snd (host_command stub_host cancel_command
            (vim_state (snd (busy (snd (get_mode stub_host start_world)))))))"
    by (simp_all add: Let_def)
  have "stub_mode (vim_state (snd (preserve_mode stub_host busy start_world))) = ''n''"
    using mode m1 m2 m3 v by simp
  then have m4: "fst (get_mode stub_host (snd (preserve_mode stub_host busy start_world))) = Inr (VStr ''n'')"
    by (simp add: get_mode_law [OF M])
  show ?thesis
    using C M R W L b1 b2 b3 c0 cur regs ra rb m0 m1 m4 by simp
qed

text \<open>
  Claim C3 fails on the code, for the mode and for the registers.
  \<^item> \<^verbatim>\<open>preserve_mode\<close> only acts when the block went from normal mode to a selection mode
    or back. Entered in characterwise visual mode with a wrapped operation that
    switches to linewise visual mode, it sends nothing, and the mode after the block
    is not the mode before it.
  \<^item> \<^verbatim>\<open>preserve_registers\<close> called with register \<^verbatim>\<open>0\<close>, as \<^verbatim>\<open>delete_word\<close> calls it, around
    an operation that does nothing: the first loop saves the text of the register and
    clears it, the loop over the special registers then reads the cleared register and
    replaces the saved entry by \<^verbatim>\<open>None\<close>, and the exit loop clears the register twice.
    The register held \<^verbatim>\<open>yank\<close> before the block and is empty after it.
\<close>

theorem state_not_preserved:
  "fst (get_mode stub_host visual_world) = Inr (VStr ''v'') \<and>
   fst (press_V (snd (get_mode stub_host visual_world))) = Inr () \<and>
   trace (snd (preserve_mode stub_host press_V visual_world)) =
     [Eval ''mode(1)'', Command (execute_normal ''normal'' ''V''), Eval ''mode(1)''] \<and>
   fst (get_mode stub_host (snd (preserve_mode stub_host press_V visual_world))) = Inr (VStr ''V'') \<and>
   fst (get_register stub_host ''0'' cut_world) = Inr (Some (VStr ''yank'')) \<and>
   fst (preserve_registers stub_host [''0''] idle cut_world) = Inr () \<and>
   trace (snd (preserve_registers stub_host [''0''] idle cut_world)) =
     [Eval ''@0'', Command (let_register ''0'' []), Eval ''@0'', Eval (''@'' @ [CHR 0x22]),
      Command (let_register ''0'' []), Command (let_register ''0'' []),
      Command (let_register [CHR 0x22] ''cut'')] \<and>
   fst (get_register stub_host ''0'' (snd (preserve_registers stub_host [''0''] idle cut_world))) =
     Inr None"
  by (simp add: block_run stub_run press_V_run stub_press_V idle_def visual_world_def cut_world_def)

end
